theory Spec2Isabelle
  imports Complex_Main "HOL-Library.Multiset" "HOL-Library.AList"
begin

chapter \<open>Queue-Bot: a shallow embedding of Base, the queue tables and the argument parser\<close>

text \<open>
  The development follows four source files: \<open>Base.ts\<close> (the shuffle),
  \<open>tables/QueueGuildTable.ts\<close> and \<open>tables/QueueTable.ts\<close> (the two persistent tables
  and the cascade that removes a queue), and \<open>ParsingUtils.ts\<close> (the permission check and
  the argument parser of a slash command). All definitions come first; the lemmas and the
  theorems about them follow in the second half.
\<close>

section \<open>Base.shuffle\<close>

text \<open>
  \<open>Math.random()\<close> is a source of doubles in the half-open interval from 0 to 1. The
  \<open>k\<close>-th call is modelled as \<open>rnd k\<close>; a double is a rational, so \<open>real\<close> holds it
  exactly. \<open>Math.floor(Math.random() * (i + 1))\<close> is \<open>random_index\<close>, with the product
  taken in the reals. The source's product is the nearest double; for a factor below 1
  and \<open>i + 1\<close> below \<open>2 ^ 53\<close> it is below \<open>i + 1\<close> as well, so in both readings the
  index is at most \<open>i\<close>, which is the one property of the index that the shuffle needs.
\<close>

definition random_index :: "real \<Rightarrow> nat \<Rightarrow> nat" where
  "random_index r i = nat \<lfloor>r * real (i + 1)\<rfloor>"

text \<open>
  The loop body draws one index per iteration. The loop is written over a draw function
  \<open>draw k i\<close> (the index drawn by the \<open>k\<close>-th call, made at loop counter \<open>i\<close>), so that
  the same loop can be run on \<open>Math.random\<close> and on an explicit list of drawn indices.
\<close>

definition Math_random_draw :: "(nat \<Rightarrow> real) \<Rightarrow> nat \<Rightarrow> nat \<Rightarrow> nat" where
  "Math_random_draw rnd k i = random_index (rnd k) i"

definition listed_draw :: "nat list \<Rightarrow> nat \<Rightarrow> nat \<Rightarrow> nat" where
  "listed_draw js k i = js ! k"

text \<open>
  \<open>[array[i], array[j]] = [array[j], array[i]]\<close>: both reads happen before both writes.
  A drawn index never exceeds \<open>i\<close>, and \<open>i\<close> is below the length, so the reads and writes
  of the loop stay inside the array.
\<close>

definition swap_at :: "'v list \<Rightarrow> nat \<Rightarrow> nat \<Rightarrow> 'v list" where
  "swap_at xs i j = xs[i := xs ! j, j := xs ! i]"

text \<open>\<open>for (let i = n - 1; i > 0; i--)\<close>, started at \<open>i\<close> with \<open>k\<close> draws already made.\<close>

fun shuffle_loop :: "(nat \<Rightarrow> nat \<Rightarrow> nat) \<Rightarrow> nat \<Rightarrow> nat \<Rightarrow> 'v list \<Rightarrow> 'v list" where
  "shuffle_loop draw k 0 xs = xs"
| "shuffle_loop draw k (Suc i) xs =
     (let j = draw k (Suc i) in shuffle_loop draw (Suc k) i (swap_at xs (Suc i) j))"

text \<open>
  A discord.js \<open>Collection\<close> is a \<open>Map\<close>: its entries are not reachable by \<open>array[i]\<close>.
  On a Collection the subscript reads and writes an own property of the object named by
  the number (\<open>undefined\<close> when absent, here \<open>None\<close>), and the entries stay as they are;
  the source says so in its comment (``Collection is not numerical'').
\<close>

fun shuffle_props ::
  "(nat \<Rightarrow> nat \<Rightarrow> nat) \<Rightarrow> nat \<Rightarrow> nat \<Rightarrow> (nat \<Rightarrow> 'v option) \<Rightarrow> (nat \<Rightarrow> 'v option)" where
  "shuffle_props draw k 0 ps = ps"
| "shuffle_props draw k (Suc i) ps =
     (let j = draw k (Suc i) in shuffle_props draw (Suc k) i (ps(Suc i := ps j, j := ps (Suc i))))"

datatype ('k, 'v) shuffle_target =
    JsArray "'v list"
  | JsCollection "('k \<times> 'v) list" "nat \<Rightarrow> 'v option"

text \<open>
  The start index is \<open>(array.length || array.size) - 1\<close>. For an empty array the left
  operand is 0, the right one \<open>undefined\<close>, the difference \<open>NaN\<close>, and the loop does not
  run; for an empty Collection the start is \<open>-1\<close>. Both are the truncated \<open>0 - 1 = 0\<close>.
\<close>

definition shuffle ::
  "(nat \<Rightarrow> nat \<Rightarrow> nat) \<Rightarrow> ('k, 'v) shuffle_target \<Rightarrow> ('k, 'v) shuffle_target" where
  "shuffle draw array =
     (case array of
        JsArray xs \<Rightarrow> JsArray (shuffle_loop draw 0 (length xs - 1) xs)
      | JsCollection es ps \<Rightarrow> JsCollection es (shuffle_props draw 0 (length es - 1) ps))"

text \<open>The entries of a target: array elements carry no key, Collection entries do.\<close>

fun entries :: "('k, 'v) shuffle_target \<Rightarrow> ('k option \<times> 'v) multiset" where
  "entries (JsArray xs) = mset (map (Pair None) xs)"
| "entries (JsCollection es ps) = mset (map (\<lambda>(k, v). (Some k, v)) es)"

text \<open>
  The draws of one run on an array whose last index is \<open>i\<close>: one index at most \<open>i\<close>, then
  one at most \<open>i - 1\<close>, down to one at most 1. When each index is drawn uniformly and
  independently, every sequence of \<open>index_choices i\<close> has the same probability, so the
  probability of an outcome is the share of the sequences that produce it.
\<close>

fun index_choices :: "nat \<Rightarrow> nat list list" where
  "index_choices 0 = [[]]"
| "index_choices (Suc i) = concat (map (\<lambda>j. map ((#) j) (index_choices i)) [0..<Suc (Suc i)])"

definition shuffle_probability :: "'v list \<Rightarrow> 'v list \<Rightarrow> real" where
  "shuffle_probability xs ys =
     real (length (filter
             (\<lambda>js. shuffle (listed_draw js) (JsArray xs :: (unit, 'v) shuffle_target) = JsArray ys)
             (index_choices (length xs - 1))))
     / real (length (index_choices (length xs - 1)))"

section \<open>The persistent tables\<close>

type_synonym Snowflake = string

datatype error =
    TypeError
  | NoSuchTable string
  | DuplicateKey string
  | DiscordAPIError

subsection \<open>Schemas\<close>

datatype column_type = BigInteger | Integer | Text | Boolean

record column =
  col_name :: string
  col_type :: column_type
  col_primary :: bool
  col_default :: "string option"

record 'r table =
  tbl_columns :: "column list"
  tbl_rows :: "'r list"

definition col :: "string \<Rightarrow> column_type \<Rightarrow> column" where
  "col name ty = \<lparr>col_name = name, col_type = ty, col_primary = False, col_default = None\<rparr>"

text \<open>The columns \<open>QueueTable.initTable\<close> declares, in its order.\<close>

definition queue_channels_columns :: "column list" where
  "queue_channels_columns =
     [ (col ''queue_channel_id'' BigInteger)\<lparr>col_primary := True\<rparr>,
       col ''auto_fill'' Integer,
       col ''color'' Text,
       col ''enable_partial_pull'' Boolean,
       col ''grace_period'' Integer,
       col ''guild_id'' BigInteger,
       col ''header'' Text,
       col ''hide_button'' Boolean,
       col ''is_locked'' Boolean,
       col ''max_members'' Integer,
       col ''pull_num'' Integer,
       col ''target_channel_id'' BigInteger,
       col ''mute'' Boolean ]"

text \<open>The columns \<open>QueueGuildTable.initTable\<close> declares.\<close>

definition queue_guilds_columns :: "column list" where
  "queue_guilds_columns =
     [ (col ''guild_id'' BigInteger)\<lparr>col_primary := True\<rparr>,
       col ''disable_mentions'' Boolean,
       col ''disable_notifications'' Boolean,
       col ''disable_roles'' Boolean,
       col ''logging_channel_id'' BigInteger,
       col ''logging_channel_level'' Integer,
       col ''msg_mode'' Integer,
       col ''role_prefix'' Text,
       (col ''timestamps'' Text)\<lparr>col_default := Some ''off''\<rparr> ]"

subsection \<open>Rows\<close>

text \<open>
  A row of \<open>queue_channels\<close> (\<open>StoredQueue\<close>); a column that holds NULL is \<open>None\<close>. The
  field \<open>role_id\<close> is the one the source reads and writes besides the declared columns.
\<close>

record StoredQueue =
  sq_queue_channel_id :: Snowflake
  sq_auto_fill :: "int option"
  sq_color :: "string option"
  sq_enable_partial_pull :: "bool option"
  sq_grace_period :: "int option"
  sq_guild_id :: "Snowflake option"
  sq_header :: "string option"
  sq_hide_button :: "bool option"
  sq_is_locked :: "bool option"
  sq_max_members :: "int option"
  sq_pull_num :: "int option"
  sq_target_channel_id :: "Snowflake option"
  sq_mute :: "bool option"
  sq_role_id :: "Snowflake option"

text \<open>A row of \<open>queue_guilds\<close> (\<open>StoredGuild\<close>).\<close>

record StoredGuild =
  sg_guild_id :: Snowflake
  sg_disable_mentions :: "bool option"
  sg_disable_notifications :: "bool option"
  sg_disable_roles :: "bool option"
  sg_logging_channel_id :: "Snowflake option"
  sg_logging_channel_level :: "int option"
  sg_msg_mode :: "int option"
  sg_role_prefix :: "string option"
  sg_timestamps :: "string option"

text \<open>
  Modelled from the spec: the rows of the four tables that hang off a queue. Their table
  classes (\<open>BlackWhiteListTable\<close>, \<open>DisplayChannelTable\<close>, \<open>QueueMemberTable\<close>,
  \<open>ScheduleTable\<close>) are not in the source tree; the spec keys a member entry by (queue,
  member) and binds a display to a queue. Each row keeps the id of its queue and what
  tells it from its siblings.
\<close>

record BlackWhiteListEntry =
  bw_queue_channel_id :: Snowflake
  bw_role_member_id :: Snowflake
  bw_type :: int

record DisplayChannel =
  dc_queue_channel_id :: Snowflake
  dc_display_channel_id :: Snowflake
  dc_message_id :: Snowflake

record QueueMember =
  qm_channel_id :: Snowflake
  qm_member_id :: Snowflake

record Schedule =
  sc_queue_channel_id :: Snowflake
  sc_command :: string

text \<open>
  The database. The two tables whose bootstrap is in the source may be absent; the four
  dependent tables are plain row lists.
\<close>

record database =
  queue_guilds :: "StoredGuild table option"
  queue_channels :: "StoredQueue table option"
  black_white_list :: "BlackWhiteListEntry list"
  display_channels :: "DisplayChannel list"
  queue_members :: "QueueMember list"
  schedules :: "Schedule list"

subsection \<open>Queries\<close>

text \<open>
  \<open>insert\<close> into a table with a primary key: the database rejects the row when the table
  is missing or a stored row has the same key, and appends it otherwise.
\<close>

definition insert_row ::
  "string \<Rightarrow> ('r \<Rightarrow> Snowflake) \<Rightarrow> 'r \<Rightarrow> 'r table option \<Rightarrow> error + 'r table" where
  "insert_row name key r tbl =
     (case tbl of
        None \<Rightarrow> Inl (NoSuchTable name)
      | Some t \<Rightarrow>
          if list_ex (\<lambda>x. key x = key r) (tbl_rows t) then Inl (DuplicateKey name)
          else Inr (t\<lparr>tbl_rows := tbl_rows t @ [r]\<rparr>))"

text \<open>\<open>where(...).update(...)\<close> and \<open>where(...).delete()\<close> on the rows of a table.\<close>

definition update_where :: "('r \<Rightarrow> bool) \<Rightarrow> ('r \<Rightarrow> 'r) \<Rightarrow> 'r table \<Rightarrow> 'r table" where
  "update_where cond f t = t\<lparr>tbl_rows := map (\<lambda>r. if cond r then f r else r) (tbl_rows t)\<rparr>"

definition delete_where :: "('r \<Rightarrow> bool) \<Rightarrow> 'r table \<Rightarrow> 'r table" where
  "delete_where cond t = t\<lparr>tbl_rows := filter (\<lambda>r. \<not> cond r) (tbl_rows t)\<rparr>"

subsection \<open>QueueGuildTable\<close>

text \<open>
  \<open>initTable\<close>: \<open>hasTable\<close>, and \<open>createTable\<close> only when the answer is no. The flag
  \<open>created\<close> says whether \<open>createTable\<close> resolves; when it rejects, the source logs the
  error (\<open>.catch((e) => console.error(e))\<close>) and the database is as before.
\<close>

definition QueueGuildTable_initTable :: "bool \<Rightarrow> database \<Rightarrow> database" where
  "QueueGuildTable_initTable created db =
     (case queue_guilds db of
        Some t \<Rightarrow> db
      | None \<Rightarrow>
          if created
          then db\<lparr>queue_guilds := Some \<lparr>tbl_columns = queue_guilds_columns, tbl_rows = []\<rparr>\<rparr>
          else db)"

definition QueueGuildTable_get :: "Snowflake \<Rightarrow> database \<Rightarrow> error + StoredGuild option" where
  "QueueGuildTable_get guildId db =
     (case queue_guilds db of
        None \<Rightarrow> Inl (NoSuchTable ''queue_guilds'')
      | Some t \<Rightarrow> Inr (find (\<lambda>r. sg_guild_id r = guildId) (tbl_rows t)))"

text \<open>
  \<open>store\<close> inserts \<open>{ guild_id: guild.id, msg_mode: 1 }\<close>. The columns it does not name
  take their default: \<open>''off''\<close> for \<open>timestamps\<close>, NULL for the others.
\<close>

definition new_guild_row :: "Snowflake \<Rightarrow> StoredGuild" where
  "new_guild_row guildId =
     \<lparr> sg_guild_id = guildId,
       sg_disable_mentions = None,
       sg_disable_notifications = None,
       sg_disable_roles = None,
       sg_logging_channel_id = None,
       sg_logging_channel_level = None,
       sg_msg_mode = Some 1,
       sg_role_prefix = None,
       sg_timestamps = Some ''off'' \<rparr>"

definition QueueGuildTable_store :: "Snowflake \<Rightarrow> database \<Rightarrow> error + database" where
  "QueueGuildTable_store guildId db =
     (case insert_row ''queue_guilds'' sg_guild_id (new_guild_row guildId) (queue_guilds db) of
        Inl e \<Rightarrow> Inl e
      | Inr t \<Rightarrow> Inr (db\<lparr>queue_guilds := Some t\<rparr>))"

definition QueueGuildTable_setMessageMode :: "Snowflake \<Rightarrow> int \<Rightarrow> database \<Rightarrow> error + database" where
  "QueueGuildTable_setMessageMode guildId mode db =
     (case queue_guilds db of
        None \<Rightarrow> Inl (NoSuchTable ''queue_guilds'')
      | Some t \<Rightarrow>
          Inr (db\<lparr>queue_guilds :=
                 Some (update_where (\<lambda>r. sg_guild_id r = guildId) (\<lambda>r. r\<lparr>sg_msg_mode := Some mode\<rparr>) t)\<rparr>))"

text \<open>
  The three display modes, numbered as the comment on \<open>setMessageMode\<close> numbers them:
  1, old display messages are edited (the default); 2, new display messages are sent and
  old ones are deleted; 3, new display messages are sent.
\<close>

datatype message_mode = EDIT | RESEND_AND_DELETE | RESEND

definition message_mode_of :: "int \<Rightarrow> message_mode option" where
  "message_mode_of n =
     (if n = 1 then Some EDIT
      else if n = 2 then Some RESEND_AND_DELETE
      else if n = 3 then Some RESEND
      else None)"

definition display_mode :: "StoredGuild \<Rightarrow> message_mode option" where
  "display_mode g = (case sg_msg_mode g of None \<Rightarrow> None | Some n \<Rightarrow> message_mode_of n)"

subsection \<open>QueueTable\<close>

definition QueueTable_initTable :: "bool \<Rightarrow> database \<Rightarrow> database" where
  "QueueTable_initTable created db =
     (case queue_channels db of
        Some t \<Rightarrow> db
      | None \<Rightarrow>
          if created
          then db\<lparr>queue_channels := Some \<lparr>tbl_columns = queue_channels_columns, tbl_rows = []\<rparr>\<rparr>
          else db)"

definition QueueTable_get :: "Snowflake \<Rightarrow> database \<Rightarrow> error + StoredQueue option" where
  "QueueTable_get queueChannelId db =
     (case queue_channels db of
        None \<Rightarrow> Inl (NoSuchTable ''queue_channels'')
      | Some t \<Rightarrow> Inr (find (\<lambda>r. sq_queue_channel_id r = queueChannelId) (tbl_rows t)))"

definition QueueTable_getFromGuild :: "Snowflake \<Rightarrow> database \<Rightarrow> error + StoredQueue list" where
  "QueueTable_getFromGuild guildId db =
     (case queue_channels db of
        None \<Rightarrow> Inl (NoSuchTable ''queue_channels'')
      | Some t \<Rightarrow> Inr (filter (\<lambda>r. sq_guild_id r = Some guildId) (tbl_rows t)))"

text \<open>
  \<open>deleteQueueRole\<close> resets \<open>role_id\<close> of the queue's row. What follows in the source
  deletes the role on the Discord side and catches every failure; it does not touch the
  database.
\<close>

definition deleteQueueRole :: "Snowflake \<Rightarrow> StoredQueue \<Rightarrow> database \<Rightarrow> error + database" where
  "deleteQueueRole guildId channel db =
     (case queue_channels db of
        None \<Rightarrow> Inl (NoSuchTable ''queue_channels'')
      | Some t \<Rightarrow>
          Inr (db\<lparr>queue_channels :=
                 Some (update_where (\<lambda>r. sq_queue_channel_id r = sq_queue_channel_id channel)
                         (\<lambda>r. r\<lparr>sq_role_id := None\<rparr>) t)\<rparr>))"

text \<open>
  Modelled from the spec: \<open>BlackWhiteListTable.unstore\<close>, \<open>DisplayChannelTable.unstore\<close>,
  \<open>QueueMemberTable.unstore\<close> and \<open>ScheduleTable.unstore\<close>, whose bodies are not in the
  source tree. Each is the delete of its table's rows keyed by the queue it is called
  with (the spec: a display binding is destroyed when its queue is deleted; member rows
  are keyed by the queue's channel id). The first argument of the black/white-list call
  is a list type; the one call in the source passes 2, taken here to select both lists.
\<close>

definition BlackWhiteListTable_unstore :: "int \<Rightarrow> Snowflake \<Rightarrow> database \<Rightarrow> database" where
  "BlackWhiteListTable_unstore ty queueChannelId db =
     db\<lparr>black_white_list :=
          filter (\<lambda>r. \<not> (bw_queue_channel_id r = queueChannelId \<and> (ty = 2 \<or> bw_type r = ty)))
            (black_white_list db)\<rparr>"

definition DisplayChannelTable_unstore :: "Snowflake \<Rightarrow> database \<Rightarrow> database" where
  "DisplayChannelTable_unstore queueChannelId db =
     db\<lparr>display_channels :=
          filter (\<lambda>r. dc_queue_channel_id r \<noteq> queueChannelId) (display_channels db)\<rparr>"

definition QueueMemberTable_unstore :: "Snowflake \<Rightarrow> Snowflake \<Rightarrow> database \<Rightarrow> database" where
  "QueueMemberTable_unstore guildId channelId db =
     db\<lparr>queue_members := filter (\<lambda>r. qm_channel_id r \<noteq> channelId) (queue_members db)\<rparr>"

definition ScheduleTable_unstore :: "Snowflake \<Rightarrow> database \<Rightarrow> database" where
  "ScheduleTable_unstore queueChannelId db =
     db\<lparr>schedules := filter (\<lambda>r. sc_queue_channel_id r \<noteq> queueChannelId) (schedules db)\<rparr>"

text \<open>
  The loop of \<open>QueueTable.unstore\<close> over the selected rows. The five calls of one round
  work on five different tables, so the order in which their promises settle does not
  show in the result.
\<close>

fun unstore_each :: "Snowflake \<Rightarrow> StoredQueue list \<Rightarrow> database \<Rightarrow> error + database" where
  "unstore_each guildId [] db = Inr db"
| "unstore_each guildId (queueChannel # rest) db =
     (case deleteQueueRole guildId queueChannel db of
        Inl e \<Rightarrow> Inl e
      | Inr d \<Rightarrow>
          unstore_each guildId rest
            (ScheduleTable_unstore (sq_queue_channel_id queueChannel)
              (QueueMemberTable_unstore guildId (sq_queue_channel_id queueChannel)
                (DisplayChannelTable_unstore (sq_queue_channel_id queueChannel)
                  (BlackWhiteListTable_unstore 2 (sq_queue_channel_id queueChannel) d)))))"

text \<open>
  The query of \<open>unstore\<close>: the rows of the guild, narrowed to one channel when
  \<open>channelId\<close> is truthy (given and not the empty string).
\<close>

definition unstore_query :: "Snowflake \<Rightarrow> Snowflake option \<Rightarrow> StoredQueue \<Rightarrow> bool" where
  "unstore_query guildId channelId r =
     (sq_guild_id r = Some guildId \<and>
      (case channelId of
         None \<Rightarrow> True
       | Some c \<Rightarrow> if c = [] then True else sq_queue_channel_id r = c))"

definition QueueTable_unstore :: "Snowflake \<Rightarrow> Snowflake option \<Rightarrow> database \<Rightarrow> error + database" where
  "QueueTable_unstore guildId channelId db =
     (case queue_channels db of
        None \<Rightarrow> Inl (NoSuchTable ''queue_channels'')
      | Some t \<Rightarrow>
          (case unstore_each guildId (filter (unstore_query guildId channelId) (tbl_rows t)) db of
             Inl e \<Rightarrow> Inl e
           | Inr d \<Rightarrow>
               (case queue_channels d of
                  None \<Rightarrow> Inl (NoSuchTable ''queue_channels'')
                | Some t' \<Rightarrow>
                    Inr (d\<lparr>queue_channels :=
                           Some (delete_where (unstore_query guildId channelId) t')\<rparr>))))"

text \<open>
  \<open>QueueGuildTable.unstore\<close> removes every queue of the guild, then the guild's row. Its
  two other calls clear \<open>AdminPermissionTable\<close> and \<open>PriorityTable\<close>, tables keyed by the
  guild that are not part of this model.
\<close>

definition QueueGuildTable_unstore :: "Snowflake \<Rightarrow> database \<Rightarrow> error + database" where
  "QueueGuildTable_unstore guildId db =
     (case QueueTable_unstore guildId None db of
        Inl e \<Rightarrow> Inl e
      | Inr d \<Rightarrow>
          (case queue_guilds d of
             None \<Rightarrow> Inl (NoSuchTable ''queue_guilds'')
           | Some t \<Rightarrow>
               Inr (d\<lparr>queue_guilds := Some (delete_where (\<lambda>r. sg_guild_id r = guildId) t)\<rparr>)))"

text \<open>What it means for the database to hold no row of a queue.\<close>

definition queue_row_stored :: "Snowflake \<Rightarrow> Snowflake \<Rightarrow> database \<Rightarrow> bool" where
  "queue_row_stored guildId channelId db =
     (case queue_channels db of
        None \<Rightarrow> False
      | Some t \<Rightarrow>
          list_ex (\<lambda>r. sq_guild_id r = Some guildId \<and> sq_queue_channel_id r = channelId) (tbl_rows t))"

definition dependent_rows :: "Snowflake \<Rightarrow> database \<Rightarrow> nat" where
  "dependent_rows channelId db =
     length (filter (\<lambda>r. bw_queue_channel_id r = channelId) (black_white_list db))
     + length (filter (\<lambda>r. dc_queue_channel_id r = channelId) (display_channels db))
     + length (filter (\<lambda>r. qm_channel_id r = channelId) (queue_members db))
     + length (filter (\<lambda>r. sc_queue_channel_id r = channelId) (schedules db))"

section \<open>ParsingUtils\<close>

subsection \<open>What a request carries\<close>

record Role =
  role_id :: Snowflake
  role_name :: string

text \<open>
  A guild member: \<open>member_roles\<close> is \<open>member.roles.cache\<close>; \<open>member_permissionsIn\<close> is what
  \<open>member.permissionsIn(request.channel)\<close> gives for the channel of the request: the
  error it throws, \<open>None\<close> for a missing result, or the names of the permissions.
\<close>

record GuildMember =
  member_id :: Snowflake
  member_bot :: bool
  member_roles :: "Role list"
  member_permissionsIn :: "error + string list option"

record GuildBasedChannel =
  channel_id :: Snowflake
  channel_name :: string
  channel_type :: string
  channel_guild :: "string option"
  channel_members :: "GuildMember list"

text \<open>
  An option of a slash command. Its type tag says which payload it carries, so each tag
  is a constructor with that payload: \<open>value\<close> for STRING, INTEGER and BOOLEAN, \<open>member\<close>
  for USER, \<open>role\<close> for ROLE, \<open>channel\<close> for CHANNEL, \<open>options\<close> (the empty list when
  absent) for the two sub-command tags. A payload the client could not resolve is \<open>None\<close>.
\<close>

datatype CommandInteractionOption =
    SUB_COMMAND "CommandInteractionOption list"
  | SUB_COMMAND_GROUP "CommandInteractionOption list"
  | STRING string
  | INTEGER "int option"
  | BOOLEAN bool
  | USER "GuildMember option"
  | ROLE "Role option"
  | CHANNEL "GuildBasedChannel option"
  | OTHER_OPTION

text \<open>
  The interaction: the requesting member, the guild id, the options
  (\<open>request.options.data\<close>), the two reply flags, and what \<open>request.guild.channels.fetch()\<close>
  resolves to (an entry of the fetched collection may be null).
\<close>

record CommandInteraction =
  ci_member :: "GuildMember option"
  ci_guildId :: Snowflake
  ci_options :: "CommandInteractionOption list"
  ci_replied :: bool
  ci_deferred :: bool
  ci_guild_channels :: "error + GuildBasedChannel option list"

subsection \<open>checkPermission\<close>

text \<open>
  The body of the \<open>try\<close> block. \<open>regEx\<close> is \<open>RegExp(Base.config.permissionsRegexp, "i").test\<close>
  (the configuration file is not in the source tree); \<open>getMany\<close> is what
  \<open>AdminPermissionTable.getMany(request.guildId)\<close> resolves to, the \<open>role_member_id\<close> of
  each entry, or the error it rejects with. \<open>Inr b\<close> is the block returning \<open>b\<close> or, for
  \<open>False\<close>, running to its end; \<open>Inl e\<close> is the block throwing \<open>e\<close>.
\<close>

definition checkPermission_try ::
  "(string \<Rightarrow> bool) \<Rightarrow> (error + Snowflake list) \<Rightarrow> CommandInteraction \<Rightarrow> error + bool" where
  "checkPermission_try regEx getMany request =
     (case ci_member request of
        None \<Rightarrow> Inr False
      | Some member \<Rightarrow>
          (case member_permissionsIn member of
             Inl e \<Rightarrow> Inl e
           | Inr perms \<Rightarrow>
               if (case perms of None \<Rightarrow> False | Some ps \<Rightarrow> ''ADMINISTRATOR'' \<in> set ps)
               then Inr True
               else
                 (case getMany of
                    Inl e \<Rightarrow> Inl e
                  | Inr permissionEntries \<Rightarrow>
                      if list_ex
                           (\<lambda>entry. list_ex (\<lambda>r. role_id r = entry) (member_roles member)
                                    \<or> member_id member = entry)
                           permissionEntries
                      then Inr True
                      else if list_ex (\<lambda>r. regEx (role_name r)) (member_roles member)
                      then Inr True
                      else Inr False)))"

text \<open>\<open>catch (e) { }\<close> and the \<open>return false\<close> after it.\<close>

definition checkPermission ::
  "(string \<Rightarrow> bool) \<Rightarrow> (error + Snowflake list) \<Rightarrow> CommandInteraction \<Rightarrow> bool" where
  "checkPermission regEx getMany request =
     (case checkPermission_try regEx getMany request of
        Inl e \<Rightarrow> False
      | Inr b \<Rightarrow> b)"

subsection \<open>The parsed command\<close>

datatype RequiredType = REQUIRED | OPTIONAL

record ChannelOptions =
  co_required :: "RequiredType option"
  co_type :: "string list option"

record NumberOptions =
  no_required :: "RequiredType option"
  no_min :: int
  no_max :: int
  no_defaultValue :: "int option"

record RequiredOptions =
  ro_command :: string
  ro_channel :: "ChannelOptions option"
  ro_members :: "RequiredType option"
  ro_roles :: "RequiredType option"
  ro_strings :: "RequiredType option"
  ro_numbers :: "NumberOptions option"
  ro_booleans :: "RequiredType option"

text \<open>
  \<open>Interfaces.ts\<close> is not in the source tree. Its three lists of queuable channel types
  and the truthiness of the members of its enum \<open>RequiredType\<close> (which
  \<open>if (conf.members)\<close> and its like depend on) are parameters of the model.
\<close>

record Interfaces =
  QUEUABLE_CHANNELS :: "string list"
  QUEUABLE_TEXT_CHANNELS :: "string list"
  QUEUABLE_VOICE_CHANNELS :: "string list"
  RequiredType_truthy :: "RequiredType \<Rightarrow> bool"

definition truthy :: "Interfaces \<Rightarrow> RequiredType option \<Rightarrow> bool" where
  "truthy I r = (case r of None \<Rightarrow> False | Some t \<Rightarrow> RequiredType_truthy I t)"

text \<open>
  The fields of \<open>Parsed\<close>. A field that is \<open>undefined\<close> until it is assigned is an option.
  The two Collections of \<open>args\<close> are association lists in insertion order. A number
  argument is \<open>None\<close> when it is null or undefined.
\<close>

record Parsed =
  args_channels :: "GuildBasedChannel option list option"
  args_members :: "(Snowflake \<times> GuildMember) list option"
  args_roles :: "(Snowflake \<times> Role) list option"
  args_strings :: "string list"
  args_numbers :: "int option list"
  args_booleans :: "bool list"
  command :: "string option"
  request :: CommandInteraction
  storedGuild :: "StoredGuild option"
  hasPermission :: "bool option"
  cachedChannels :: "GuildBasedChannel list option"
  cachedQueues :: "StoredQueue list option"
  cachedQueueChannels :: "(StoredQueue \<times> GuildBasedChannel option) list option"

text \<open>The constructor.\<close>

definition new_Parsed :: "CommandInteraction \<Rightarrow> Parsed" where
  "new_Parsed cmd =
     \<lparr> args_channels = None, args_members = None, args_roles = None,
       args_strings = [], args_numbers = [], args_booleans = [],
       command = None, request = cmd, storedGuild = None, hasPermission = None,
       cachedChannels = None, cachedQueues = None, cachedQueueChannels = None \<rparr>"

subsection \<open>findArgs\<close>

text \<open>
  \<open>findArgs(options, type, accumulator)\<close>. The pair of \<open>option.type === type\<close> and the
  payload that is pushed for that type is one selector: \<open>Some\<close> of the payload when the
  option has the type looked for. A sub-command with options is searched in place; one
  without is a leaf that no type looked for matches.
\<close>

fun findArgs ::
  "CommandInteractionOption list \<Rightarrow> (CommandInteractionOption \<Rightarrow> 'a option) \<Rightarrow> 'a list \<Rightarrow> 'a list" where
  "findArgs [] sel accumulator = accumulator"
| "findArgs (SUB_COMMAND subs # rest) sel accumulator =
     findArgs rest sel (if subs \<noteq> [] then findArgs subs sel accumulator else accumulator)"
| "findArgs (SUB_COMMAND_GROUP subs # rest) sel accumulator =
     findArgs rest sel (if subs \<noteq> [] then findArgs subs sel accumulator else accumulator)"
| "findArgs (opt # rest) sel accumulator =
     findArgs rest sel (case sel opt of None \<Rightarrow> accumulator | Some a \<Rightarrow> accumulator @ [a])"

definition is_STRING :: "CommandInteractionOption \<Rightarrow> string option" where
  "is_STRING opt = (case opt of STRING s \<Rightarrow> Some s | _ \<Rightarrow> None)"

definition is_INTEGER :: "CommandInteractionOption \<Rightarrow> int option option" where
  "is_INTEGER opt = (case opt of INTEGER n \<Rightarrow> Some n | _ \<Rightarrow> None)"

definition is_BOOLEAN :: "CommandInteractionOption \<Rightarrow> bool option" where
  "is_BOOLEAN opt = (case opt of BOOLEAN b \<Rightarrow> Some b | _ \<Rightarrow> None)"

definition is_USER :: "CommandInteractionOption \<Rightarrow> GuildMember option option" where
  "is_USER opt = (case opt of USER m \<Rightarrow> Some m | _ \<Rightarrow> None)"

definition is_ROLE :: "CommandInteractionOption \<Rightarrow> Role option option" where
  "is_ROLE opt = (case opt of ROLE r \<Rightarrow> Some r | _ \<Rightarrow> None)"

definition is_CHANNEL :: "CommandInteractionOption \<Rightarrow> GuildBasedChannel option option" where
  "is_CHANNEL opt = (case opt of CHANNEL c \<Rightarrow> Some c | _ \<Rightarrow> None)"

subsection \<open>reply\<close>

text \<open>
  \<open>reply\<close> logs to the logging channel and then sends through one of three calls of
  the interaction, chosen by its flags. \<open>send\<close> is the outcome of the whole attempt:
  the error with which \<open>reply\<close> rejects, or nothing when the message went out.
\<close>

datatype reply_call = followUp | editReply | reply_first

definition reply ::
  "(reply_call \<Rightarrow> string \<Rightarrow> error + unit) \<Rightarrow> Parsed \<Rightarrow> string \<Rightarrow> error + (reply_call \<times> string)" where
  "reply send p content =
     (let call = (if ci_replied (request p) then followUp
                  else if ci_deferred (request p) then editReply
                  else reply_first)
      in case send call content of Inl e \<Rightarrow> Inl e | Inr u \<Rightarrow> Inr (call, content))"

subsection \<open>verifyNumber and verifyArgs\<close>

text \<open>
  \<open>number ? Math.max(Math.min(number, max), min) : defaultValue\<close>: a number is falsy
  when it is 0, null or undefined. The default may itself be undefined.
\<close>

definition verify_one :: "int \<Rightarrow> int \<Rightarrow> int option \<Rightarrow> int option \<Rightarrow> int option" where
  "verify_one mn mx defaultValue number =
     (case number of
        None \<Rightarrow> defaultValue
      | Some n \<Rightarrow> if n \<noteq> 0 then Some (max (min n mx) mn) else defaultValue)"

fun verifyNumber_loop :: "int \<Rightarrow> int \<Rightarrow> int option \<Rightarrow> nat \<Rightarrow> nat \<Rightarrow> int option list \<Rightarrow> int option list" where
  "verifyNumber_loop mn mx defaultValue i 0 numbers = numbers"
| "verifyNumber_loop mn mx defaultValue i (Suc todo) numbers =
     verifyNumber_loop mn mx defaultValue (Suc i) todo
       (numbers[i := verify_one mn mx defaultValue (numbers ! i)])"

definition verifyNumber :: "int \<Rightarrow> int \<Rightarrow> int option \<Rightarrow> Parsed \<Rightarrow> Parsed" where
  "verifyNumber mn mx defaultValue p =
     p\<lparr>args_numbers :=
          verifyNumber_loop mn mx defaultValue 0 (length (args_numbers p)) (args_numbers p)\<rparr>"

text \<open>\<open>missingArgs.join(" and ")\<close>.\<close>

fun join_and :: "string list \<Rightarrow> string" where
  "join_and [] = []"
| "join_and [x] = x"
| "join_and (x # y # ys) = x @ '' and '' @ join_and (y # ys)"

text \<open>
  The name pushed for a missing channel. \<open>QUEUABLE_TEXT_CHANNELS.includes(conf.channel.type)\<close>
  asks whether the list of type names has the whole array \<open>conf.channel.type\<close> (or
  \<open>undefined\<close>) as one of its elements. An element is a type name, so the answer is no,
  for the voice list too, and the name is always \<open>channel\<close>.
\<close>

definition includes_array :: "string list \<Rightarrow> string list option \<Rightarrow> bool" where
  "includes_array names arr = False"

definition missing_channel_name :: "Interfaces \<Rightarrow> ChannelOptions \<Rightarrow> string" where
  "missing_channel_name I cc =
     (if includes_array (QUEUABLE_TEXT_CHANNELS I) (co_type cc) then ''**text** '' else [])
     @ (if includes_array (QUEUABLE_VOICE_CHANNELS I) (co_type cc) then ''**voice** '' else [])
     @ ''channel''"

text \<open>
  The six tests of \<open>verifyArgs\<close>, in their order; the parsed command after them (the
  number test clamps the numbers when there are any); and the names pushed.
\<close>

definition missing_numbers :: "RequiredOptions \<Rightarrow> Parsed \<Rightarrow> bool" where
  "missing_numbers conf p =
     (case ro_numbers conf of
        None \<Rightarrow> False
      | Some n \<Rightarrow> no_required n = Some REQUIRED \<and> args_numbers p = [])"

definition verified_numbers :: "RequiredOptions \<Rightarrow> Parsed \<Rightarrow> Parsed" where
  "verified_numbers conf p =
     (case ro_numbers conf of
        None \<Rightarrow> p
      | Some n \<Rightarrow>
          if no_required n = Some REQUIRED \<and> args_numbers p \<noteq> []
          then verifyNumber (no_min n) (no_max n) (no_defaultValue n) p
          else p)"

definition missingArgs :: "Interfaces \<Rightarrow> RequiredOptions \<Rightarrow> Parsed \<Rightarrow> string list" where
  "missingArgs I conf p =
     (case ro_channel conf of
        None \<Rightarrow> []
      | Some cc \<Rightarrow>
          if truthy I (co_required cc) \<and> args_channels p = None
          then [missing_channel_name I cc] else [])
     @ (if ro_roles conf = Some REQUIRED \<and> args_roles p = None then [''role''] else [])
     @ (if ro_members conf = Some REQUIRED
           \<and> (case args_members p of None \<Rightarrow> True | Some ms \<Rightarrow> ms = [])
        then [''member''] else [])
     @ (if missing_numbers conf p then [''number''] else [])
     @ (if ro_strings conf = Some REQUIRED \<and> args_strings p = [] then [''string''] else [])
     @ (if ro_booleans conf = Some REQUIRED \<and> args_booleans p = [] then [''boolean''] else [])"

definition missing_message :: "string list \<Rightarrow> string" where
  "missing_message missing =
     ''**ERROR**: Missing '' @ join_and missing @ '' argument''
     @ (if length missing > 1 then ''s.'' else ''.'')"

text \<open>
  \<open>verifyArgs\<close> returns the names; the reply it attempts when there are any is sent
  with \<open>.catch(() => null)\<close>, so a failed reply only means that nothing went out. The
  result is the names, the parsed command, and the replies that went out.
\<close>

definition verifyArgs ::
  "Interfaces \<Rightarrow> (reply_call \<Rightarrow> string \<Rightarrow> error + unit) \<Rightarrow> RequiredOptions \<Rightarrow> Parsed
   \<Rightarrow> string list \<times> Parsed \<times> (reply_call \<times> string) list" where
  "verifyArgs I send conf p =
     (let missing = missingArgs I conf p;
          p' = verified_numbers conf p;
          sent = (if missing \<noteq> []
                  then (case reply send p' (missing_message missing) of
                          Inl e \<Rightarrow> []
                        | Inr m \<Rightarrow> [m])
                  else [])
      in (missing, p', sent))"

subsection \<open>The queue channels of the guild\<close>

text \<open>\<open>getStoredQueues\<close>, \<open>getChannels\<close>, \<open>getQueuePairs\<close> and \<open>getQueueChannels\<close>, with their caches.\<close>

definition getStoredQueues :: "database \<Rightarrow> Parsed \<Rightarrow> error + (StoredQueue list \<times> Parsed)" where
  "getStoredQueues db p =
     (case cachedQueues p of
        Some qs \<Rightarrow> Inr (qs, p)
      | None \<Rightarrow>
          (case QueueTable_getFromGuild (ci_guildId (request p)) db of
             Inl e \<Rightarrow> Inl e
           | Inr qs \<Rightarrow> Inr (qs, p\<lparr>cachedQueues := Some qs\<rparr>)))"

definition queuable :: "Interfaces \<Rightarrow> GuildBasedChannel option \<Rightarrow> GuildBasedChannel option" where
  "queuable I ch =
     (case ch of
        None \<Rightarrow> None
      | Some c \<Rightarrow> if channel_type c \<in> set (QUEUABLE_CHANNELS I) then Some c else None)"

definition getChannels :: "Interfaces \<Rightarrow> Parsed \<Rightarrow> error + (GuildBasedChannel list \<times> Parsed)" where
  "getChannels I p =
     (case cachedChannels p of
        Some cs \<Rightarrow> Inr (cs, p)
      | None \<Rightarrow>
          (case ci_guild_channels (request p) of
             Inl e \<Rightarrow> Inl e
           | Inr fetched \<Rightarrow>
               (let cs = List.map_filter (queuable I) fetched
                in Inr (cs, p\<lparr>cachedChannels := Some cs\<rparr>))))"

definition getQueuePairs ::
  "Interfaces \<Rightarrow> database \<Rightarrow> Parsed
   \<Rightarrow> error + ((StoredQueue \<times> GuildBasedChannel option) list \<times> Parsed)" where
  "getQueuePairs I db p =
     (case getStoredQueues db p of
        Inl e \<Rightarrow> Inl e
      | Inr (storedQueues, p1) \<Rightarrow>
          (case getChannels I p1 of
             Inl e \<Rightarrow> Inl e
           | Inr (channels, p2) \<Rightarrow>
               (case cachedQueueChannels p2 of
                  Some pairs \<Rightarrow> Inr (pairs, p2)
                | None \<Rightarrow>
                    (let pairs = map (\<lambda>stored.
                                   (stored,
                                    find (\<lambda>ch. channel_id ch = sq_queue_channel_id stored) channels))
                                 storedQueues
                     in Inr (pairs, p2\<lparr>cachedQueueChannels := Some pairs\<rparr>)))))"

definition getQueueChannels ::
  "Interfaces \<Rightarrow> database \<Rightarrow> Parsed \<Rightarrow> error + (GuildBasedChannel option list \<times> Parsed)" where
  "getQueueChannels I db p =
     (case getQueuePairs I db p of
        Inl e \<Rightarrow> Inl e
      | Inr (pairs, p') \<Rightarrow> Inr (map snd pairs, p'))"

subsection \<open>parseArgs\<close>

text \<open>
  \<open>channels.filter((ch) => conf.channel.type.includes(ch.type))\<close>: reading \<open>type\<close> of an
  entry that is undefined throws a TypeError.
\<close>

fun filter_by_type ::
  "string list \<Rightarrow> GuildBasedChannel option list \<Rightarrow> error + GuildBasedChannel option list" where
  "filter_by_type tys [] = Inr []"
| "filter_by_type tys (None # rest) = Inl TypeError"
| "filter_by_type tys (Some c # rest) =
     (case filter_by_type tys rest of
        Inl e \<Rightarrow> Inl e
      | Inr kept \<Rightarrow> Inr (if channel_type c \<in> set tys then Some c # kept else kept))"

text \<open>
  \<open>channels.find((ch) => ch?.id === this.args.strings[0])\<close>. Without a first string the
  right side is undefined and only an undefined entry can match, which then is the
  (falsy) result; with a first string the result is the first entry with that id.
\<close>

definition find_by_id ::
  "string list \<Rightarrow> GuildBasedChannel option list \<Rightarrow> GuildBasedChannel option" where
  "find_by_id strs channels =
     (case strs of
        [] \<Rightarrow> None
      | s # rest \<Rightarrow>
          (case find (\<lambda>ch. case ch of None \<Rightarrow> False | Some c \<Rightarrow> channel_id c = s) channels of
             Some (Some c) \<Rightarrow> Some c
           | _ \<Rightarrow> None))"

text \<open>The members and roles named by the command, collected by id.\<close>

definition collect_members :: "GuildMember option list \<Rightarrow> (Snowflake \<times> GuildMember) list" where
  "collect_members found =
     foldl (\<lambda>acc m. case m of None \<Rightarrow> acc | Some gm \<Rightarrow> AList.update (member_id gm) gm acc) [] found"

definition collect_roles :: "Role option list \<Rightarrow> (Snowflake \<times> Role) list" where
  "collect_roles found =
     foldl (\<lambda>acc r. case r of None \<Rightarrow> acc | Some ro \<Rightarrow> AList.update (role_id ro) ro acc) [] found"

text \<open>The part of \<open>parseArgs\<close> before the channels: command, strings, numbers, booleans, members, roles.\<close>

definition parseArgs_values :: "Interfaces \<Rightarrow> RequiredOptions \<Rightarrow> Parsed \<Rightarrow> Parsed" where
  "parseArgs_values I conf p =
     (let data = ci_options (request p);
          p1 = p\<lparr>command := Some (ro_command conf), args_strings := findArgs data is_STRING []\<rparr>;
          p2 = (if ro_numbers conf \<noteq> None
                then p1\<lparr>args_numbers := findArgs data is_INTEGER []\<rparr> else p1);
          p3 = (if truthy I (ro_booleans conf)
                then p2\<lparr>args_booleans := findArgs data is_BOOLEAN []\<rparr> else p2);
          p4 = (if truthy I (ro_members conf)
                then p3\<lparr>args_members := Some (collect_members (findArgs data is_USER []))\<rparr> else p3);
          p5 = (if truthy I (ro_roles conf)
                then p4\<lparr>args_roles := Some (collect_roles (findArgs data is_ROLE []))\<rparr> else p4)
      in p5)"

text \<open>The candidates of the automatic resolution: the queue channels, filtered by \<open>conf.channel.type\<close> when it is given.\<close>

definition candidate_channels ::
  "Interfaces \<Rightarrow> database \<Rightarrow> ChannelOptions \<Rightarrow> Parsed
   \<Rightarrow> error + (GuildBasedChannel option list \<times> Parsed)" where
  "candidate_channels I db cc p =
     (case getQueueChannels I db p of
        Inl e \<Rightarrow> Inl e
      | Inr (channels, p') \<Rightarrow>
          (case co_type cc of
             None \<Rightarrow> Inr (channels, p')
           | Some tys \<Rightarrow>
               (case filter_by_type tys channels of
                  Inl e \<Rightarrow> Inl e
                | Inr kept \<Rightarrow> Inr (kept, p'))))"

text \<open>The choice among the candidates, and the \<open>splice\<close> that follows it.\<close>

definition choose_channels :: "GuildBasedChannel option list \<Rightarrow> Parsed \<Rightarrow> Parsed" where
  "choose_channels channels p =
     (if length channels = 1 then p\<lparr>args_channels := Some channels\<rparr>
      else
        (let p1 = (if (case args_strings p of [] \<Rightarrow> False | s # rest \<Rightarrow> s = ''ALL'')
                   then p\<lparr>args_channels := Some channels\<rparr>
                   else (case find_by_id (args_strings p) channels of
                           None \<Rightarrow> p
                         | Some ch \<Rightarrow> p\<lparr>args_channels := Some [Some ch]\<rparr>))
         in if args_channels p1 \<noteq> None then p1\<lparr>args_strings := drop 1 (args_strings p1)\<rparr> else p1))"

text \<open>The block \<open>if (conf.channel) { ... }\<close>.\<close>

definition parseArgs_channel ::
  "Interfaces \<Rightarrow> database \<Rightarrow> RequiredOptions \<Rightarrow> Parsed \<Rightarrow> error + Parsed" where
  "parseArgs_channel I db conf p =
     (case ro_channel conf of
        None \<Rightarrow> Inr p
      | Some cc \<Rightarrow>
          (let channel = (case findArgs (ci_options (request p)) is_CHANNEL [] of
                            [] \<Rightarrow> None
                          | c # rest \<Rightarrow> c)
           in if (case channel of None \<Rightarrow> False
                  | Some c \<Rightarrow> channel_type c \<in> set (QUEUABLE_CHANNELS I))
              then Inr (p\<lparr>args_channels := Some [channel]\<rparr>)
              else
                (case candidate_channels I db cc p of
                   Inl e \<Rightarrow> Inl e
                 | Inr (channels, p') \<Rightarrow> Inr (choose_channels channels p'))))"

definition parseArgs ::
  "Interfaces \<Rightarrow> (reply_call \<Rightarrow> string \<Rightarrow> error + unit) \<Rightarrow> database \<Rightarrow> RequiredOptions \<Rightarrow> Parsed
   \<Rightarrow> error + (string list \<times> Parsed \<times> (reply_call \<times> string) list)" where
  "parseArgs I send db conf p =
     (case parseArgs_channel I db conf (parseArgs_values I conf p) of
        Inl e \<Rightarrow> Inl e
      | Inr p' \<Rightarrow> Inr (verifyArgs I send conf p'))"

text \<open>
  Whether the interaction carries a channel argument of a queuable type: the source
  looks at the first channel argument only.
\<close>

definition queuable_channel_argument :: "Interfaces \<Rightarrow> Parsed \<Rightarrow> bool" where
  "queuable_channel_argument I p =
     (case findArgs (ci_options (request p)) is_CHANNEL [] of
        [] \<Rightarrow> False
      | c # rest \<Rightarrow> (case c of None \<Rightarrow> False | Some ch \<Rightarrow> channel_type ch \<in> set (QUEUABLE_CHANNELS I)))"

section \<open>QueueTable.store\<close>

text \<open>The two fields of \<open>Base.config\<close> that \<open>store\<close> reads (the file is not in the source tree).\<close>

record ConfigJson =
  cfg_color :: string
  cfg_gracePeriod :: int

text \<open>The errors of section 7 of the spec.\<close>

datatype admission_error =
    AlreadyQueued | NotQueued | Empty | InsufficientMembers | DestinationFull | Locked | Gone

text \<open>
  Modelled from the spec: \<open>QueueMemberTable.store\<close>, whose body is not in the source
  tree, as the \<open>join\<close> of section 4.1: the member is entered at the tail of the queue,
  or the call fails with \<open>AlreadyQueued\<close>.
\<close>

definition QueueMemberTable_store ::
  "GuildBasedChannel \<Rightarrow> GuildMember \<Rightarrow> database \<Rightarrow> admission_error + database" where
  "QueueMemberTable_store channel member db =
     (if list_ex (\<lambda>r. qm_channel_id r = channel_id channel \<and> qm_member_id r = member_id member)
           (queue_members db)
      then Inl AlreadyQueued
      else Inr (db\<lparr>queue_members :=
                    queue_members db
                    @ [\<lparr>qm_channel_id = channel_id channel, qm_member_id = member_id member\<rparr>]\<rparr>))"

text \<open>
  \<open>for await (const member of members.filter((member) => !member.user.bot).values())\<close>
  with \<open>.catch(() => null)\<close> on each store: a failed store leaves the database as it was.
\<close>

fun store_members :: "GuildBasedChannel \<Rightarrow> GuildMember list \<Rightarrow> database \<Rightarrow> database" where
  "store_members channel [] db = db"
| "store_members channel (member # rest) db =
     store_members channel rest
       (case QueueMemberTable_store channel member db of Inl e \<Rightarrow> db | Inr d \<Rightarrow> d)"

definition new_queue_row :: "ConfigJson \<Rightarrow> Snowflake \<Rightarrow> Snowflake \<Rightarrow> int option \<Rightarrow> StoredQueue" where
  "new_queue_row cfg guildId channelId maxMembers =
     \<lparr> sq_queue_channel_id = channelId,
       sq_auto_fill = Some 1,
       sq_color = Some (cfg_color cfg),
       sq_enable_partial_pull = None,
       sq_grace_period = Some (cfg_gracePeriod cfg),
       sq_guild_id = Some guildId,
       sq_header = None,
       sq_hide_button = None,
       sq_is_locked = None,
       sq_max_members = maxMembers,
       sq_pull_num = Some 1,
       sq_target_channel_id = None,
       sq_mute = None,
       sq_role_id = None \<rparr>"

definition too_many_queues_warning :: "GuildBasedChannel \<Rightarrow> string" where
  "too_many_queues_warning channel =
     ''WARNING: ''
     @ (case channel_guild channel of Some g \<Rightarrow> g | None \<Rightarrow> ''**'' @ channel_name channel @ ''**'')
     @ '' will not be available in slash commands due to a Discord limit of 25 choices per command parameter. ''
     @ '' To interact with this new queue, you must delete another queue.''"

text \<open>
  \<open>store\<close>. The result is the database after the call and how the call ended: the
  error it rejected with, or the replies it sent. Reading \<open>parsed.storedGuild.guild_id\<close>
  throws when \<open>storedGuild\<close> is undefined; the insert can fail; the reply at the end is
  not caught. The update of the guild's slash commands is scheduled on a timer and is
  not part of the call.
\<close>

definition QueueTable_store ::
  "Interfaces \<Rightarrow> ConfigJson \<Rightarrow> (reply_call \<Rightarrow> string \<Rightarrow> error + unit) \<Rightarrow> Parsed
   \<Rightarrow> GuildBasedChannel \<Rightarrow> int option \<Rightarrow> database
   \<Rightarrow> database \<times> (error + (reply_call \<times> string) list)" where
  "QueueTable_store I cfg send parsed channel maxMembers db =
     (case storedGuild parsed of
        None \<Rightarrow> (db, Inl TypeError)
      | Some g \<Rightarrow>
          (case insert_row ''queue_channels'' sq_queue_channel_id
                  (new_queue_row cfg (sg_guild_id g) (channel_id channel) maxMembers)
                  (queue_channels db) of
             Inl e \<Rightarrow> (db, Inl e)
           | Inr t \<Rightarrow>
               (let db1 = db\<lparr>queue_channels := Some t\<rparr>;
                    db2 = (if channel_type channel \<in> set (QUEUABLE_VOICE_CHANNELS I)
                           then store_members channel
                                  (filter (\<lambda>m. \<not> member_bot m) (channel_members channel)) db1
                           else db1)
                in (case QueueTable_getFromGuild (ci_guildId (request parsed)) db2 of
                      Inl e \<Rightarrow> (db2, Inl e)
                    | Inr queues \<Rightarrow>
                        if length queues > 25
                        then (case reply send parsed (too_many_queues_warning channel) of
                                Inl e \<Rightarrow> (db2, Inl e)
                              | Inr m \<Rightarrow> (db2, Inr [m]))
                        else (db2, Inr [])))))"

section \<open>The Admission Engine\<close>

text \<open>
  Modelled from the spec: the pull of section 4.3; the code that pulls members is not
  in the source tree. \<open>requested\<close> is the explicit count or the queue's default pull
  count; an empty queue reports \<open>Empty\<close>; a queue shorter than the request reports
  \<open>InsufficientMembers\<close> unless partial pulls are allowed; a destination with a size
  limit caps the count by its headroom and reports \<open>DestinationFull\<close> when none is left.
  The pulled members are the head of \<open>listOrdered\<close>; the second component is what stays.
  A NULL \<open>pull_num\<close> counts as 0 and a NULL \<open>enable_partial_pull\<close> as false.
\<close>

definition default_pull_count :: "StoredQueue \<Rightarrow> nat" where
  "default_pull_count queue = (case sq_pull_num queue of None \<Rightarrow> 0 | Some n \<Rightarrow> nat n)"

definition partial_pull_allowed :: "StoredQueue \<Rightarrow> bool" where
  "partial_pull_allowed queue = (sq_enable_partial_pull queue = Some True)"

definition pull ::
  "StoredQueue \<Rightarrow> nat option \<Rightarrow> (nat \<times> nat) option \<Rightarrow> 'm list
   \<Rightarrow> admission_error + ('m list \<times> 'm list)" where
  "pull queue explicit_count destination listOrdered =
     (let requested = (case explicit_count of None \<Rightarrow> default_pull_count queue | Some n \<Rightarrow> n);
          available = length listOrdered
      in if available = 0 then Inl Empty
         else if available < requested \<and> \<not> partial_pull_allowed queue then Inl InsufficientMembers
         else
           (let k = (if available < requested then available else requested)
            in case destination of
                 None \<Rightarrow> Inr (take k listOrdered, drop k listOrdered)
               | Some (size_limit, current_size) \<Rightarrow>
                   (let k' = min k (size_limit - current_size)
                    in if k' = 0 then Inl DestinationFull
                       else Inr (take k' listOrdered, drop k' listOrdered))))"

text \<open>
  Modelled from the spec: \<open>listOrdered(queue)\<close> of section 4.1, the member entries of a
  queue in the order in which they were entered.
\<close>

definition listOrdered :: "Snowflake \<Rightarrow> database \<Rightarrow> QueueMember list" where
  "listOrdered channelId db = filter (\<lambda>r. qm_channel_id r = channelId) (queue_members db)"

section \<open>Requests that differ in the requester's roles\<close>

text \<open>
  The role data of the requesting member: the roles (names and ids), the permissions in
  the channel of the request (the administrator status), and the answer of
  \<open>checkPermission\<close> kept in \<open>hasPermission\<close>. \<open>without_roles\<close> blanks it; two parsed
  commands are identical except for that data when blanking makes them equal.
\<close>

definition member_without_roles :: "GuildMember \<Rightarrow> GuildMember" where
  "member_without_roles m = m\<lparr>member_roles := [], member_permissionsIn := Inr None\<rparr>"

definition request_without_roles :: "CommandInteraction \<Rightarrow> CommandInteraction" where
  "request_without_roles r = r\<lparr>ci_member := map_option member_without_roles (ci_member r)\<rparr>"

definition without_roles :: "Parsed \<Rightarrow> Parsed" where
  "without_roles p = p\<lparr>request := request_without_roles (request p), hasPermission := None\<rparr>"


section \<open>Example data\<close>

text \<open>A small guild with two queues, used where a theorem is run on concrete input.\<close>

definition demo_Interfaces :: Interfaces where
  "demo_Interfaces =
     \<lparr> QUEUABLE_CHANNELS = [''GUILD_VOICE'', ''GUILD_STAGE_VOICE'', ''GUILD_TEXT''],
       QUEUABLE_TEXT_CHANNELS = [''GUILD_TEXT''],
       QUEUABLE_VOICE_CHANNELS = [''GUILD_VOICE'', ''GUILD_STAGE_VOICE''],
       RequiredType_truthy = (\<lambda>t. True) \<rparr>"

definition demo_config :: ConfigJson where
  "demo_config = \<lparr>cfg_color = ''#51ff7e'', cfg_gracePeriod = 0\<rparr>"

definition empty_db :: database where
  "empty_db =
     \<lparr> queue_guilds = None, queue_channels = None, black_white_list = [],
       display_channels = [], queue_members = [], schedules = [] \<rparr>"

definition demo_db :: database where
  "demo_db =
     \<lparr> queue_guilds = Some \<lparr>tbl_columns = queue_guilds_columns, tbl_rows = [new_guild_row ''100'']\<rparr>,
       queue_channels =
         Some \<lparr>tbl_columns = queue_channels_columns,
               tbl_rows = [new_queue_row demo_config ''100'' ''200'' None,
                           new_queue_row demo_config ''100'' ''201'' (Some 5)]\<rparr>,
       black_white_list =
         [\<lparr>bw_queue_channel_id = ''200'', bw_role_member_id = ''7'', bw_type = 0\<rparr>,
          \<lparr>bw_queue_channel_id = ''201'', bw_role_member_id = ''8'', bw_type = 1\<rparr>],
       display_channels =
         [\<lparr>dc_queue_channel_id = ''200'', dc_display_channel_id = ''400'', dc_message_id = ''500''\<rparr>],
       queue_members =
         [\<lparr>qm_channel_id = ''200'', qm_member_id = ''300''\<rparr>,
          \<lparr>qm_channel_id = ''201'', qm_member_id = ''301''\<rparr>,
          \<lparr>qm_channel_id = ''200'', qm_member_id = ''302''\<rparr>],
       schedules = [\<lparr>sc_queue_channel_id = ''200'', sc_command = ''clear''\<rparr>] \<rparr>"

definition demo_voice :: GuildBasedChannel where
  "demo_voice =
     \<lparr> channel_id = ''200'', channel_name = ''Waiting Room'', channel_type = ''GUILD_VOICE'',
       channel_guild = Some ''Debate'', channel_members = [] \<rparr>"

definition demo_text :: GuildBasedChannel where
  "demo_text =
     \<lparr> channel_id = ''201'', channel_name = ''queue'', channel_type = ''GUILD_TEXT'',
       channel_guild = Some ''Debate'', channel_members = [] \<rparr>"

definition demo_new_text :: GuildBasedChannel where
  "demo_new_text =
     \<lparr> channel_id = ''202'', channel_name = ''lobby'', channel_type = ''GUILD_TEXT'',
       channel_guild = Some ''Debate'', channel_members = [] \<rparr>"

definition demo_moderator :: GuildMember where
  "demo_moderator =
     \<lparr> member_id = ''300'', member_bot = False,
       member_roles = [\<lparr>role_id = ''900'', role_name = ''mod''\<rparr>],
       member_permissionsIn = Inr (Some [''ADMINISTRATOR'']) \<rparr>"

definition demo_guest :: GuildMember where
  "demo_guest =
     \<lparr> member_id = ''300'', member_bot = False, member_roles = [],
       member_permissionsIn = Inr (Some []) \<rparr>"

definition demo_request :: "GuildMember \<Rightarrow> CommandInteractionOption list \<Rightarrow> CommandInteraction" where
  "demo_request member opts =
     \<lparr> ci_member = Some member, ci_guildId = ''100'', ci_options = opts,
       ci_replied = False, ci_deferred = False,
       ci_guild_channels = Inr [Some demo_voice, Some demo_text, None] \<rparr>"

definition demo_parsed :: "GuildMember \<Rightarrow> bool \<Rightarrow> CommandInteractionOption list \<Rightarrow> Parsed" where
  "demo_parsed member allowed opts =
     (new_Parsed (demo_request member opts))
       \<lparr>storedGuild := Some (new_guild_row ''100''), hasPermission := Some allowed\<rparr>"

definition send_ok :: "reply_call \<Rightarrow> string \<Rightarrow> error + unit" where
  "send_ok call content = Inr ()"

definition send_fails :: "reply_call \<Rightarrow> string \<Rightarrow> error + unit" where
  "send_fails call content = Inl DiscordAPIError"

definition demo_conf :: RequiredOptions where
  "demo_conf =
     \<lparr> ro_command = ''next'',
       ro_channel = Some \<lparr>co_required = Some REQUIRED, co_type = None\<rparr>,
       ro_members = None, ro_roles = None, ro_strings = None,
       ro_numbers = Some \<lparr>no_required = Some OPTIONAL, no_min = 1, no_max = 99, no_defaultValue = Some 1\<rparr>,
       ro_booleans = None \<rparr>"

definition demo_conf_no_channel :: RequiredOptions where
  "demo_conf_no_channel = demo_conf\<lparr>ro_command := ''help'', ro_channel := None\<rparr>"

definition selection ::
  "error + (string list \<times> Parsed \<times> (reply_call \<times> string) list)
   \<Rightarrow> error + (GuildBasedChannel option list option \<times> string list)" where
  "selection res =
     (case res of
        Inl e \<Rightarrow> Inl e
      | Inr (missing, p, sent) \<Rightarrow> Inr (args_channels p, args_strings p))"

text \<open>A stored queue whose channel is no longer in the guild, and a command that filters by type.\<close>

definition demo_db_stale :: database where
  "demo_db_stale =
     demo_db\<lparr>queue_channels :=
       Some \<lparr>tbl_columns = queue_channels_columns,
             tbl_rows = [new_queue_row demo_config ''100'' ''200'' None,
                         new_queue_row demo_config ''100'' ''299'' None]\<rparr>\<rparr>"

definition demo_conf_voice :: RequiredOptions where
  "demo_conf_voice =
     demo_conf\<lparr>ro_channel := Some \<lparr>co_required = Some REQUIRED, co_type = Some [''GUILD_VOICE'']\<rparr>\<rparr>"

chapter \<open>Lemmas and theorems\<close>

section \<open>The shuffle keeps its entries\<close>

lemma random_index_le: "0 \<le> r \<Longrightarrow> r < 1 \<Longrightarrow> random_index r i \<le> i"
proof -
  assume r: "0 \<le> r" "r < 1"
  have "r * real (i + 1) < real (i + 1)" using r by simp
  then have "\<lfloor>r * real (i + 1)\<rfloor> < int (i + 1)" by (simp add: floor_less_iff)
  then show ?thesis unfolding random_index_def by linarith
qed

lemma mset_swap_at: "i < length xs \<Longrightarrow> j < length xs \<Longrightarrow> mset (swap_at xs i j) = mset xs"
  unfolding swap_at_def by (simp add: mset_swap)

lemma length_swap_at [simp]: "length (swap_at xs i j) = length xs"
  by (simp add: swap_at_def)

lemma mset_shuffle_loop:
  "i < length xs \<Longrightarrow> (\<forall>t<i. draw (k + t) (i - t) \<le> i - t) \<Longrightarrow>
   mset (shuffle_loop draw k i xs) = mset xs"
proof (induction i arbitrary: k xs)
  case 0
  then show ?case by simp
next
  case (Suc i)
  have j: "draw k (Suc i) \<le> Suc i" using Suc.prems(2)[rule_format, of 0] by simp
  have rest: "\<forall>t<i. draw (Suc k + t) (i - t) \<le> i - t"
  proof (intro allI impI)
    fix t assume "t < i"
    then show "draw (Suc k + t) (i - t) \<le> i - t"
      using Suc.prems(2)[rule_format, of "Suc t"] by simp
  qed
  have "mset (shuffle_loop draw (Suc k) i (swap_at xs (Suc i) (draw k (Suc i))))
        = mset (swap_at xs (Suc i) (draw k (Suc i)))"
    using Suc.prems(1) by (intro Suc.IH rest) simp
  also have "\<dots> = mset xs" using Suc.prems(1) j by (intro mset_swap_at) auto
  finally show ?case by simp
qed

lemma Math_random_draw_le:
  "\<forall>k. 0 \<le> rnd k \<and> rnd k < 1 \<Longrightarrow> Math_random_draw rnd k i \<le> i"
  by (simp add: Math_random_draw_def random_index_le)

lemma entries_shuffle:
  assumes "\<forall>k i. draw k i \<le> i"
  shows "entries (shuffle draw array) = entries array"
proof (cases array)
  case (JsArray xs)
  show ?thesis
  proof (cases xs)
    case Nil
    with JsArray show ?thesis by (simp add: shuffle_def)
  next
    case (Cons a as)
    have "mset (shuffle_loop draw 0 (length xs - 1) xs) = mset xs"
      using Cons assms by (intro mset_shuffle_loop) auto
    then show ?thesis using JsArray by (simp add: shuffle_def)
  qed
next
  case (JsCollection es ps)
  then show ?thesis by (simp add: shuffle_def)
qed

text \<open>
  Claim C1. The entries after \<open>Base.shuffle\<close> are the entries before it, as a multiset:
  nothing is added, duplicated or lost. This holds for every way of drawing the indices
  in which the index drawn at loop counter \<open>i\<close> is at most \<open>i\<close>, and so for every stream of
  values that \<open>Math.random\<close> can return. For an array the elements are permuted; for a
  Collection the entries are not touched at all.
\<close>

theorem shuffle_preserves_entries:
  "((\<forall>k i. draw k i \<le> i) \<longrightarrow> entries (shuffle draw array) = entries array)
   \<and> ((\<forall>k. 0 \<le> rnd k \<and> rnd k < 1)
        \<longrightarrow> entries (shuffle (Math_random_draw rnd) array) = entries array)"
proof (intro conjI impI)
  assume "\<forall>k i. draw k i \<le> i"
  then show "entries (shuffle draw array) = entries array" by (rule entries_shuffle)
next
  assume "\<forall>k. 0 \<le> rnd k \<and> rnd k < 1"
  then have "\<forall>k i. Math_random_draw rnd k i \<le> i" by (simp add: Math_random_draw_le)
  then show "entries (shuffle (Math_random_draw rnd) array) = entries array"
    by (rule entries_shuffle)
qed

theorem shuffle_preserves_entries_witness:
  "entries (shuffle (Math_random_draw (\<lambda>k. 1 / 2)) (JsArray [1, 2, 3, 4 :: nat] :: (unit, nat) shuffle_target))
     = entries (JsArray [1, 2, 3, 4 :: nat] :: (unit, nat) shuffle_target)
   \<and> shuffle (Math_random_draw (\<lambda>k. 1 / 2)) (JsArray [1, 2, 3, 4 :: nat] :: (unit, nat) shuffle_target)
     = JsArray [1, 4, 2, 3]
   \<and> entries (shuffle (\<lambda>k i. i) (JsCollection [(''a'', 1), (''b'', 2 :: nat)] (\<lambda>n. None)))
     = entries (JsCollection [(''a'', 1), (''b'', 2 :: nat)] (\<lambda>n. None))"
proof (intro conjI)
  have "\<forall>k::nat. (0::real) \<le> 1 / 2 \<and> (1::real) / 2 < 1" by simp
  with shuffle_preserves_entries
    [of "\<lambda>k i. i" "JsArray [1, 2, 3, 4 :: nat] :: (unit, nat) shuffle_target" "\<lambda>k. 1 / 2"]
  show "entries (shuffle (Math_random_draw (\<lambda>k. 1 / 2)) (JsArray [1, 2, 3, 4 :: nat] :: (unit, nat) shuffle_target))
     = entries (JsArray [1, 2, 3, 4 :: nat] :: (unit, nat) shuffle_target)"
    by blast
  show "shuffle (Math_random_draw (\<lambda>k. 1 / 2)) (JsArray [1, 2, 3, 4 :: nat] :: (unit, nat) shuffle_target)
     = JsArray [1, 4, 2, 3]"
    by (simp add: shuffle_def Math_random_draw_def random_index_def swap_at_def numeral_eq_Suc)
  have "\<forall>k i::nat. i \<le> i" by simp
  with shuffle_preserves_entries
    [of "\<lambda>k i. i" "JsCollection [(''a'', 1), (''b'', 2 :: nat)] (\<lambda>n. None)" "\<lambda>k. 1 / 2"]
  show "entries (shuffle (\<lambda>k i. i) (JsCollection [(''a'', 1), (''b'', 2 :: nat)] (\<lambda>n. None)))
     = entries (JsCollection [(''a'', 1), (''b'', 2 :: nat)] (\<lambda>n. None))"
    by blast
qed

section \<open>The shuffle is uniform\<close>

lemma shuffle_loop_cong_draws:
  "(\<forall>t<i. d (k + t) (i - t) = d' (k' + t) (i - t)) \<Longrightarrow> shuffle_loop d k i xs = shuffle_loop d' k' i xs"
proof (induction i arbitrary: k k' xs)
  case 0
  then show ?case by simp
next
  case (Suc i)
  have j: "d k (Suc i) = d' k' (Suc i)" using Suc.prems[rule_format, of 0] by simp
  have rest: "\<forall>t<i. d (Suc k + t) (i - t) = d' (Suc k' + t) (i - t)"
  proof (intro allI impI)
    fix t assume "t < i"
    then show "d (Suc k + t) (i - t) = d' (Suc k' + t) (i - t)"
      using Suc.prems[rule_format, of "Suc t"] by simp
  qed
  show ?case using Suc.IH[OF rest] j by simp
qed

lemma shuffle_loop_listed_Cons:
  "shuffle_loop (listed_draw (j # js)) 0 (Suc i) xs = shuffle_loop (listed_draw js) 0 i (swap_at xs (Suc i) j)"
proof -
  have "shuffle_loop (listed_draw (j # js)) (Suc 0) i (swap_at xs (Suc i) j)
        = shuffle_loop (listed_draw js) 0 i (swap_at xs (Suc i) j)"
    by (rule shuffle_loop_cong_draws) (simp add: listed_draw_def)
  then show ?thesis by (simp add: listed_draw_def)
qed

lemma swap_at_append:
  "i < length xs \<Longrightarrow> j < length xs \<Longrightarrow> swap_at (xs @ zs) i j = swap_at xs i j @ zs"
  by (simp add: swap_at_def list_update_append1 nth_append)

lemma shuffle_loop_append:
  "i < length xs \<Longrightarrow> (\<forall>t<i. d (k + t) (i - t) \<le> i - t) \<Longrightarrow>
   shuffle_loop d k i (xs @ zs) = shuffle_loop d k i xs @ zs"
proof (induction i arbitrary: k xs)
  case 0
  then show ?case by simp
next
  case (Suc i)
  have j: "d k (Suc i) \<le> Suc i" using Suc.prems(2)[rule_format, of 0] by simp
  have rest: "\<forall>t<i. d (Suc k + t) (i - t) \<le> i - t"
  proof (intro allI impI)
    fix t assume "t < i"
    then show "d (Suc k + t) (i - t) \<le> i - t"
      using Suc.prems(2)[rule_format, of "Suc t"] by simp
  qed
  have sw: "swap_at (xs @ zs) (Suc i) (d k (Suc i)) = swap_at xs (Suc i) (d k (Suc i)) @ zs"
    using Suc.prems(1) j by (intro swap_at_append) auto
  have "shuffle_loop d (Suc k) i (swap_at xs (Suc i) (d k (Suc i)) @ zs)
        = shuffle_loop d (Suc k) i (swap_at xs (Suc i) (d k (Suc i))) @ zs"
    using Suc.prems(1) by (intro Suc.IH rest) simp
  then show ?case using sw by simp
qed

lemma index_choices_Suc_iff:
  "js \<in> set (index_choices (Suc i)) \<longleftrightarrow>
     (\<exists>j js'. js = j # js' \<and> j \<le> Suc i \<and> js' \<in> set (index_choices i))"
  by (auto simp del: upt_Suc simp: less_Suc_eq_le)

lemma length_index_choices: "length (index_choices i) = fact (Suc i)"
proof (induction i)
  case 0
  then show ?case by simp
next
  case (Suc i)
  have "length (index_choices (Suc i)) = (\<Sum>j\<leftarrow>[0..<Suc (Suc i)]. length (index_choices i))"
    by (simp add: length_concat comp_def del: upt_Suc)
  also have "\<dots> = Suc (Suc i) * fact (Suc i)"
    using Suc.IH by (simp add: sum_list_triv del: upt_Suc fact_Suc)
  finally show ?case by (simp del: upt_Suc)
qed

lemma index_choices_nonempty: "index_choices i \<noteq> []"
proof
  assume "index_choices i = []"
  then have "length (index_choices i) = 0" by simp
  then show False by (simp only: length_index_choices) simp
qed

lemma set_index_choices:
  "js \<in> set (index_choices i) \<longleftrightarrow> length js = i \<and> (\<forall>t<i. js ! t \<le> i - t)"
proof (induction i arbitrary: js)
  case 0
  then show ?case by auto
next
  case (Suc i)
  show ?case
  proof
    assume "js \<in> set (index_choices (Suc i))"
    then obtain j js' where js: "js = j # js'" and j: "j \<le> Suc i" and js': "js' \<in> set (index_choices i)"
      unfolding index_choices_Suc_iff by blast
    from js' have len: "length js' = i" and rng: "\<forall>t<i. js' ! t \<le> i - t" using Suc.IH by auto
    have "\<forall>t<Suc i. js ! t \<le> Suc i - t"
    proof (intro allI impI)
      fix t assume "t < Suc i"
      then show "js ! t \<le> Suc i - t" using js j rng by (cases t) auto
    qed
    then show "length js = Suc i \<and> (\<forall>t<Suc i. js ! t \<le> Suc i - t)" using js len by simp
  next
    assume a: "length js = Suc i \<and> (\<forall>t<Suc i. js ! t \<le> Suc i - t)"
    then obtain j js' where js: "js = j # js'" by (cases js) auto
    have j: "j \<le> Suc i" using a js by (auto dest: spec[of _ 0])
    have "\<forall>t<i. js' ! t \<le> i - t"
    proof (intro allI impI)
      fix t assume "t < i"
      then show "js' ! t \<le> i - t" using a js by (auto dest!: spec[of _ "Suc t"])
    qed
    then have "js' \<in> set (index_choices i)" using a js Suc.IH by simp
    then show "js \<in> set (index_choices (Suc i))" using js j unfolding index_choices_Suc_iff by blast
  qed
qed

lemma distinct_index_choices: "distinct (index_choices i)"
proof (induction i)
  case 0
  then show ?case by simp
next
  case (Suc i)
  show ?case
    unfolding index_choices.simps
  proof (rule distinct_concat)
    show "distinct (map (\<lambda>j. map ((#) j) (index_choices i)) [0..<Suc (Suc i)])"
    proof -
      have "inj_on (\<lambda>j. map ((#) j) (index_choices i)) (set [0..<Suc (Suc i)])"
      proof (rule inj_onI)
        fix a b assume "map ((#) a) (index_choices i) = map ((#) b) (index_choices i)"
        moreover have "index_choices i \<noteq> []" by (rule index_choices_nonempty)
        ultimately show "a = b" by (cases "index_choices i") auto
      qed
      then show ?thesis by (simp add: distinct_map)
    qed
  next
    fix ys assume "ys \<in> set (map (\<lambda>j. map ((#) j) (index_choices i)) [0..<Suc (Suc i)])"
    then show "distinct ys" using Suc.IH by (auto simp: distinct_map)
  next
    fix ys zs
    assume "ys \<in> set (map (\<lambda>j. map ((#) j) (index_choices i)) [0..<Suc (Suc i)])"
      "zs \<in> set (map (\<lambda>j. map ((#) j) (index_choices i)) [0..<Suc (Suc i)])" "ys \<noteq> zs"
    then show "set ys \<inter> set zs = {}" by auto
  qed
qed

lemma last_swap_at:
  "length xs = Suc n \<Longrightarrow> j \<le> n \<Longrightarrow> last (swap_at xs n j) = xs ! j"
proof -
  assume len: "length xs = Suc n" and j: "j \<le> n"
  have "swap_at xs n j \<noteq> []" using len by (auto simp: swap_at_def)
  then have "last (swap_at xs n j) = swap_at xs n j ! n"
    using len by (simp add: last_conv_nth)
  also have "\<dots> = xs ! j" using len j by (cases "j = n") (simp_all add: swap_at_def)
  finally show ?thesis .
qed

lemma shuffle_loop_listed_last:
  assumes len: "length xs = Suc (Suc i)" and j: "j \<le> Suc i" and js: "js \<in> set (index_choices i)"
  shows "shuffle_loop (listed_draw (j # js)) 0 (Suc i) xs
         = shuffle_loop (listed_draw js) 0 i (butlast (swap_at xs (Suc i) j)) @ [xs ! j]"
proof -
  let ?ws = "swap_at xs (Suc i) j"
  have ne: "?ws \<noteq> []" using len by (auto simp: swap_at_def)
  have "butlast ?ws @ [last ?ws] = ?ws" using ne by (rule append_butlast_last_id)
  then have split: "?ws = butlast ?ws @ [xs ! j]"
    using last_swap_at[OF len j] by simp
  have rng: "\<forall>t<i. listed_draw js (0 + t) (i - t) \<le> i - t"
    using js by (simp add: set_index_choices listed_draw_def)
  have "shuffle_loop (listed_draw js) 0 i (butlast ?ws @ [xs ! j])
        = shuffle_loop (listed_draw js) 0 i (butlast ?ws) @ [xs ! j]"
    using len by (intro shuffle_loop_append rng) simp
  moreover have "shuffle_loop (listed_draw (j # js)) 0 (Suc i) xs
        = shuffle_loop (listed_draw js) 0 i (butlast ?ws @ [xs ! j])"
    by (subst split[symmetric]) (rule shuffle_loop_listed_Cons)
  ultimately show ?thesis by (rule trans[rotated])
qed

lemma shuffle_loop_unique_draws:
  "length xs = Suc i \<Longrightarrow> distinct xs \<Longrightarrow> mset ys = mset xs \<Longrightarrow>
   \<exists>!js. js \<in> set (index_choices i) \<and> shuffle_loop (listed_draw js) 0 i xs = ys"
proof (induction i arbitrary: xs ys)
  case 0
  then obtain x where xs: "xs = [x]" by (cases xs) auto
  with 0 have "ys = [x]" by simp
  with xs show ?case by auto
next
  case (Suc i)
  have leny: "length ys = Suc (Suc i)" using mset_eq_length[OF Suc.prems(3)] Suc.prems(1) by simp
  then obtain yb yl where ys: "ys = yb @ [yl]" by (cases ys rule: rev_cases) auto
  have "set ys = set xs" using Suc.prems(3) by (rule mset_eq_setD)
  then have "yl \<in> set xs" unfolding ys by auto
  then obtain j0 where j0: "j0 < length xs" "xs ! j0 = yl" by (auto simp: in_set_conv_nth)
  then have j0le: "j0 \<le> Suc i" using Suc.prems(1) by simp
  have juniq: "j = j0" if "j \<le> Suc i" "xs ! j = yl" for j
  proof -
    have "j < length xs" using that(1) Suc.prems(1) by simp
    then show ?thesis
      using nth_eq_iff_index_eq[OF Suc.prems(2), of j j0] j0 that(2) by simp
  qed
  define ws where "ws = swap_at xs (Suc i) j0"
  have lenw: "length ws = Suc (Suc i)" using Suc.prems(1) by (simp add: ws_def)
  then obtain wb wl where ws: "ws = wb @ [wl]" by (cases ws rule: rev_cases) auto
  have msw: "mset ws = mset xs" unfolding ws_def using Suc.prems(1) j0 by (intro mset_swap_at) auto
  have "last ws = yl" unfolding ws_def using last_swap_at[OF Suc.prems(1) j0le] j0 by simp
  then have wl: "wl = yl" using ws by simp
  have bs: "butlast ws = wb" using ws by simp
  have lenb: "length wb = Suc i" using lenw ws by simp
  have distw: "distinct ws" using mset_eq_imp_distinct_iff[OF msw] Suc.prems(2) by simp
  then have distb: "distinct wb" using ws by simp
  have "mset (yb @ [yl]) = mset (wb @ [wl])"
    using Suc.prems(3) msw unfolding ys ws by (rule trans[OF _ sym])
  then have "mset yb + {#yl#} = mset wb + {#wl#}" by simp
  then have msb: "mset yb = mset wb" using wl by simp
  from Suc.IH[OF lenb distb msb]
  obtain js0 where js0: "js0 \<in> set (index_choices i)"
      "shuffle_loop (listed_draw js0) 0 i wb = yb"
    and js0uniq: "\<And>js. js \<in> set (index_choices i) \<Longrightarrow>
      shuffle_loop (listed_draw js) 0 i wb = yb \<Longrightarrow> js = js0"
    by blast
  show ?case
  proof (rule ex1I[of _ "j0 # js0"])
    have "shuffle_loop (listed_draw (j0 # js0)) 0 (Suc i) xs = yb @ [yl]"
      using shuffle_loop_listed_last[OF Suc.prems(1) j0le js0(1)] js0(2) j0(2) bs
      by (simp add: ws_def)
    moreover have "j0 # js0 \<in> set (index_choices (Suc i))"
      unfolding index_choices_Suc_iff using j0le js0(1) by blast
    ultimately show "j0 # js0 \<in> set (index_choices (Suc i)) \<and>
        shuffle_loop (listed_draw (j0 # js0)) 0 (Suc i) xs = ys"
      using ys by simp
  next
    fix js assume a: "js \<in> set (index_choices (Suc i)) \<and>
        shuffle_loop (listed_draw js) 0 (Suc i) xs = ys"
    then have mem: "js \<in> set (index_choices (Suc i))"
      and run: "shuffle_loop (listed_draw js) 0 (Suc i) xs = ys" by blast+
    from mem obtain j js' where js: "js = j # js'" and j: "j \<le> Suc i"
      and js': "js' \<in> set (index_choices i)"
      unfolding index_choices_Suc_iff by blast
    have eq: "shuffle_loop (listed_draw js') 0 i (butlast (swap_at xs (Suc i) j)) @ [xs ! j]
          = yb @ [yl]"
      using shuffle_loop_listed_last[OF Suc.prems(1) j js'] run unfolding js ys by simp
    then have "xs ! j = yl" by simp
    with j have jj: "j = j0" by (rule juniq)
    from eq have "shuffle_loop (listed_draw js') 0 i (butlast (swap_at xs (Suc i) j)) = yb"
      by simp
    then have "shuffle_loop (listed_draw js') 0 i wb = yb" using jj bs by (simp add: ws_def)
    with js' have "js' = js0" by (rule js0uniq)
    then show "js = j0 # js0" using js jj by simp
  qed
qed

lemma length_filter_unique:
  assumes "distinct cs" and "\<exists>!x. x \<in> set cs \<and> P x"
  shows "length (filter P cs) = 1"
proof -
  from assms(2) obtain a where a: "a \<in> set cs" "P a" and u: "\<And>x. x \<in> set cs \<Longrightarrow> P x \<Longrightarrow> x = a"
    by blast
  have "{x. P x} \<inter> set cs = {a}"
  proof (rule set_eqI)
    fix x show "x \<in> {x. P x} \<inter> set cs \<longleftrightarrow> x \<in> {a}"
      using a u[of x] by blast
  qed
  then show ?thesis using assms(1) by (simp add: distinct_length_filter)
qed

text \<open>
  Claim C2. On an array of distinct members, when the index of every step is drawn
  uniformly from 0 to \<open>i\<close>, every permutation of the array comes out with the same
  probability, one over the factorial of the length: exactly one of the equally likely
  sequences of draws produces it.
\<close>

theorem shuffle_uniform:
  assumes "distinct xs" and "mset ys = mset xs"
  shows "shuffle_probability xs ys = 1 / fact (length xs)"
proof (cases xs)
  case Nil
  with assms show ?thesis by (simp add: shuffle_probability_def shuffle_def)
next
  case (Cons a as)
  then have len: "length xs = Suc (length as)" by simp
  have "length (filter (\<lambda>js. shuffle_loop (listed_draw js) 0 (length as) xs = ys)
          (index_choices (length as))) = 1"
    by (intro length_filter_unique distinct_index_choices shuffle_loop_unique_draws len assms)
  then show ?thesis
    using len by (simp add: shuffle_probability_def shuffle_def length_index_choices del: fact_Suc)
qed

theorem shuffle_uniform_witness:
  "distinct [1, 2, 3 :: nat] \<and> mset [3, 1, 2] = mset [1, 2, 3 :: nat]
   \<and> shuffle_probability [1, 2, 3 :: nat] [3, 1, 2] = 1 / 6"
  using shuffle_uniform [of "[1, 2, 3 :: nat]" "[3, 1, 2]"]
  by (simp add: fact_numeral numeral_eq_Suc)

section \<open>Bootstrap of the tables\<close>

text \<open>
  Claim C4. \<open>initTable\<close> creates its table only when the table does not exist. In every
  state where the table exists a run of \<open>initTable\<close> changes nothing: the schema and the
  rows are as before, whether or not \<open>createTable\<close> would have succeeded. In a state
  without the table a successful run creates it with the declared columns and no rows,
  and a second run after that is the identity.
\<close>

theorem initTable_idempotent:
  "(queue_channels db \<noteq> None \<longrightarrow> QueueTable_initTable created db = db)
   \<and> (queue_guilds db \<noteq> None \<longrightarrow> QueueGuildTable_initTable created db = db)
   \<and> (queue_channels db = None \<longrightarrow>
        QueueTable_initTable True db
          = db\<lparr>queue_channels := Some \<lparr>tbl_columns = queue_channels_columns, tbl_rows = []\<rparr>\<rparr>)
   \<and> (queue_guilds db = None \<longrightarrow>
        QueueGuildTable_initTable True db
          = db\<lparr>queue_guilds := Some \<lparr>tbl_columns = queue_guilds_columns, tbl_rows = []\<rparr>\<rparr>)
   \<and> QueueTable_initTable created (QueueTable_initTable True db) = QueueTable_initTable True db
   \<and> QueueGuildTable_initTable created (QueueGuildTable_initTable True db)
       = QueueGuildTable_initTable True db"
  by (auto simp: QueueTable_initTable_def QueueGuildTable_initTable_def split: option.splits)

theorem initTable_idempotent_witness:
  "QueueTable_initTable True demo_db = demo_db
   \<and> QueueGuildTable_initTable True demo_db = demo_db
   \<and> queue_channels (QueueTable_initTable True empty_db)
       = Some \<lparr>tbl_columns = queue_channels_columns, tbl_rows = []\<rparr>
   \<and> queue_guilds (QueueGuildTable_initTable True empty_db)
       = Some \<lparr>tbl_columns = queue_guilds_columns, tbl_rows = []\<rparr>"
proof -
  have a: "queue_channels demo_db \<noteq> None" "queue_guilds demo_db \<noteq> None"
    by (simp_all add: demo_db_def)
  have b: "queue_channels empty_db = None" "queue_guilds empty_db = None"
    by (simp_all add: empty_db_def)
  show ?thesis
    using a b initTable_idempotent [of demo_db True] initTable_idempotent [of empty_db True]
    by simp
qed

section \<open>The display mode of a new guild\<close>

lemma find_append_new:
  "\<not> list_ex P xs \<Longrightarrow> P x \<Longrightarrow> find P (xs @ [x]) = Some x"
  by (induction xs) auto

lemma find_update_where:
  "(\<And>r. P (f r) = P r) \<Longrightarrow>
   find P (map (\<lambda>r. if P r then f r else r) xs) = map_option f (find P xs)"
  by (induction xs) auto

text \<open>
  Claim C5. A guild that \<open>QueueGuildTable.store\<close> stores anew (its table exists and has
  no row of the guild) is stored with \<open>msg_mode = 1\<close>, the mode in which old display
  messages are edited; reading the guild back gives that mode, and it stays until
  \<open>setMessageMode\<close> replaces it.
\<close>

theorem store_default_mode:
  assumes "queue_guilds db = Some t"
    and "\<not> list_ex (\<lambda>r. sg_guild_id r = guildId) (tbl_rows t)"
  shows "\<exists>db' g. QueueGuildTable_store guildId db = Inr db'
           \<and> QueueGuildTable_get guildId db' = Inr (Some g)
           \<and> sg_msg_mode g = Some 1
           \<and> display_mode g = Some EDIT
           \<and> (\<forall>mode. \<exists>db'' g'. QueueGuildTable_setMessageMode guildId mode db' = Inr db''
                  \<and> QueueGuildTable_get guildId db'' = Inr (Some g')
                  \<and> sg_msg_mode g' = Some mode)"
proof -
  let ?g = "new_guild_row guildId"
  let ?t' = "t\<lparr>tbl_rows := tbl_rows t @ [?g]\<rparr>"
  let ?db' = "db\<lparr>queue_guilds := Some ?t'\<rparr>"
  have key: "sg_guild_id ?g = guildId" by (simp add: new_guild_row_def)
  have st: "QueueGuildTable_store guildId db = Inr ?db'"
    using assms key by (simp add: QueueGuildTable_store_def insert_row_def)
  have fnd: "find (\<lambda>r. sg_guild_id r = guildId) (tbl_rows t @ [?g]) = Some ?g"
    using assms(2) key by (rule find_append_new)
  then have gt: "QueueGuildTable_get guildId ?db' = Inr (Some ?g)"
    by (simp add: QueueGuildTable_get_def)
  have m1: "sg_msg_mode ?g = Some 1" by (simp add: new_guild_row_def)
  have m2: "display_mode ?g = Some EDIT"
    by (simp add: display_mode_def message_mode_of_def new_guild_row_def)
  have m3: "\<exists>db'' g'. QueueGuildTable_setMessageMode guildId mode ?db' = Inr db''
                  \<and> QueueGuildTable_get guildId db'' = Inr (Some g')
                  \<and> sg_msg_mode g' = Some mode" for mode
  proof -
    let ?f = "\<lambda>r. r\<lparr>sg_msg_mode := Some mode\<rparr>"
    let ?db'' = "?db'\<lparr>queue_guilds := Some (update_where (\<lambda>r. sg_guild_id r = guildId) ?f ?t')\<rparr>"
    have "QueueGuildTable_setMessageMode guildId mode ?db' = Inr ?db''"
      by (simp add: QueueGuildTable_setMessageMode_def)
    moreover have "find (\<lambda>r. sg_guild_id r = guildId)
             (map (\<lambda>r. if sg_guild_id r = guildId then ?f r else r) (tbl_rows t @ [?g]))
           = map_option ?f (find (\<lambda>r. sg_guild_id r = guildId) (tbl_rows t @ [?g]))"
      by (rule find_update_where) simp
    then have "QueueGuildTable_get guildId ?db'' = Inr (Some (?f ?g))"
      using fnd by (simp add: QueueGuildTable_get_def update_where_def)
    moreover have "sg_msg_mode (?f ?g) = Some mode" by simp
    ultimately show ?thesis by blast
  qed
  show ?thesis using st gt m1 m2 m3 by blast
qed

theorem store_default_mode_witness:
  "queue_guilds demo_db = Some \<lparr>tbl_columns = queue_guilds_columns, tbl_rows = [new_guild_row ''100'']\<rparr>
   \<and> \<not> list_ex (\<lambda>r. sg_guild_id r = ''101'') [new_guild_row ''100'']
   \<and> (\<exists>db' g. QueueGuildTable_store ''101'' demo_db = Inr db'
         \<and> QueueGuildTable_get ''101'' db' = Inr (Some g)
         \<and> sg_msg_mode g = Some 1
         \<and> display_mode g = Some EDIT
         \<and> (\<forall>mode. \<exists>db'' g'. QueueGuildTable_setMessageMode ''101'' mode db' = Inr db''
                \<and> QueueGuildTable_get ''101'' db'' = Inr (Some g')
                \<and> sg_msg_mode g' = Some mode))"
proof -
  have a: "queue_guilds demo_db
      = Some \<lparr>tbl_columns = queue_guilds_columns, tbl_rows = [new_guild_row ''100'']\<rparr>"
    by (simp add: demo_db_def)
  have b: "\<not> list_ex (\<lambda>r. sg_guild_id r = ''101'')
      (tbl_rows \<lparr>tbl_columns = queue_guilds_columns, tbl_rows = [new_guild_row ''100'']\<rparr>)"
    by (simp add: new_guild_row_def)
  from store_default_mode [OF a b] a b show ?thesis by simp
qed

section \<open>Removing a queue\<close>

lemma unstore_each_tables:
  "queue_channels db = Some t \<Longrightarrow>
   \<exists>d t'. unstore_each g qs db = Inr d \<and> queue_channels d = Some t'
     \<and> queue_guilds d = queue_guilds db
     \<and> black_white_list d
         = filter (\<lambda>r. bw_queue_channel_id r \<notin> sq_queue_channel_id ` set qs) (black_white_list db)
     \<and> display_channels d
         = filter (\<lambda>r. dc_queue_channel_id r \<notin> sq_queue_channel_id ` set qs) (display_channels db)
     \<and> queue_members d
         = filter (\<lambda>r. qm_channel_id r \<notin> sq_queue_channel_id ` set qs) (queue_members db)
     \<and> schedules d
         = filter (\<lambda>r. sc_queue_channel_id r \<notin> sq_queue_channel_id ` set qs) (schedules db)"
proof (induction qs arbitrary: db t)
  case Nil
  then show ?case by simp
next
  case (Cons q qs)
  let ?c = "sq_queue_channel_id q"
  let ?t1 = "update_where (\<lambda>r. sq_queue_channel_id r = ?c) (\<lambda>r. r\<lparr>sq_role_id := None\<rparr>) t"
  let ?d0 = "db\<lparr>queue_channels := Some ?t1\<rparr>"
  let ?d1 = "ScheduleTable_unstore ?c (QueueMemberTable_unstore g ?c
               (DisplayChannelTable_unstore ?c (BlackWhiteListTable_unstore 2 ?c ?d0)))"
  have role: "deleteQueueRole g q db = Inr ?d0"
    using Cons.prems by (simp add: deleteQueueRole_def)
  have qc: "queue_channels ?d1 = Some ?t1"
    by (simp add: ScheduleTable_unstore_def QueueMemberTable_unstore_def
        DisplayChannelTable_unstore_def BlackWhiteListTable_unstore_def)
  have qg: "queue_guilds ?d1 = queue_guilds db"
    by (simp add: ScheduleTable_unstore_def QueueMemberTable_unstore_def
        DisplayChannelTable_unstore_def BlackWhiteListTable_unstore_def)
  have bw: "black_white_list ?d1 = filter (\<lambda>r. bw_queue_channel_id r \<noteq> ?c) (black_white_list db)"
    by (simp add: ScheduleTable_unstore_def QueueMemberTable_unstore_def
        DisplayChannelTable_unstore_def BlackWhiteListTable_unstore_def)
  have dc: "display_channels ?d1 = filter (\<lambda>r. dc_queue_channel_id r \<noteq> ?c) (display_channels db)"
    by (simp add: ScheduleTable_unstore_def QueueMemberTable_unstore_def
        DisplayChannelTable_unstore_def BlackWhiteListTable_unstore_def)
  have qm: "queue_members ?d1 = filter (\<lambda>r. qm_channel_id r \<noteq> ?c) (queue_members db)"
    by (simp add: ScheduleTable_unstore_def QueueMemberTable_unstore_def
        DisplayChannelTable_unstore_def BlackWhiteListTable_unstore_def)
  have sc: "schedules ?d1 = filter (\<lambda>r. sc_queue_channel_id r \<noteq> ?c) (schedules db)"
    by (simp add: ScheduleTable_unstore_def QueueMemberTable_unstore_def
        DisplayChannelTable_unstore_def BlackWhiteListTable_unstore_def)
  from Cons.IH[OF qc] obtain d t' where d: "unstore_each g qs ?d1 = Inr d"
    "queue_channels d = Some t'" "queue_guilds d = queue_guilds ?d1"
    "black_white_list d
       = filter (\<lambda>r. bw_queue_channel_id r \<notin> sq_queue_channel_id ` set qs) (black_white_list ?d1)"
    "display_channels d
       = filter (\<lambda>r. dc_queue_channel_id r \<notin> sq_queue_channel_id ` set qs) (display_channels ?d1)"
    "queue_members d
       = filter (\<lambda>r. qm_channel_id r \<notin> sq_queue_channel_id ` set qs) (queue_members ?d1)"
    "schedules d
       = filter (\<lambda>r. sc_queue_channel_id r \<notin> sq_queue_channel_id ` set qs) (schedules ?d1)"
    by blast
  have run: "unstore_each g (q # qs) db = Inr d" using role d(1) by simp
  have "black_white_list d
         = filter (\<lambda>r. bw_queue_channel_id r \<notin> sq_queue_channel_id ` set (q # qs)) (black_white_list db)"
    unfolding d(4) bw by (simp add: conj_commute)
  moreover have "display_channels d
         = filter (\<lambda>r. dc_queue_channel_id r \<notin> sq_queue_channel_id ` set (q # qs)) (display_channels db)"
    unfolding d(5) dc by (simp add: conj_commute)
  moreover have "queue_members d
         = filter (\<lambda>r. qm_channel_id r \<notin> sq_queue_channel_id ` set (q # qs)) (queue_members db)"
    unfolding d(6) qm by (simp add: conj_commute)
  moreover have "schedules d
         = filter (\<lambda>r. sc_queue_channel_id r \<notin> sq_queue_channel_id ` set (q # qs)) (schedules db)"
    unfolding d(7) sc by (simp add: conj_commute)
  ultimately show ?case using run d(2) d(3) qg by simp
qed

lemma QueueTable_unstore_selected:
  assumes "queue_channels db = Some t"
  shows "\<exists>db'. QueueTable_unstore g copt db = Inr db'
           \<and> queue_guilds db' = queue_guilds db
           \<and> (\<forall>c. (\<forall>r. sq_guild_id r = Some g \<and> sq_queue_channel_id r = c \<longrightarrow> unstore_query g copt r)
                 \<longrightarrow> \<not> queue_row_stored g c db'
                     \<and> (queue_row_stored g c db \<longrightarrow> dependent_rows c db' = 0))"
proof -
  let ?qs = "filter (unstore_query g copt) (tbl_rows t)"
  let ?S = "sq_queue_channel_id ` set ?qs"
  from unstore_each_tables[OF assms, of g ?qs] obtain d t' where
    d: "unstore_each g ?qs db = Inr d" "queue_channels d = Some t'"
    and qg: "queue_guilds d = queue_guilds db"
    and bw: "black_white_list d = filter (\<lambda>r. bw_queue_channel_id r \<notin> ?S) (black_white_list db)"
    and dc: "display_channels d = filter (\<lambda>r. dc_queue_channel_id r \<notin> ?S) (display_channels db)"
    and qm: "queue_members d = filter (\<lambda>r. qm_channel_id r \<notin> ?S) (queue_members db)"
    and sc: "schedules d = filter (\<lambda>r. sc_queue_channel_id r \<notin> ?S) (schedules db)"
    by blast
  let ?db' = "d\<lparr>queue_channels := Some (delete_where (unstore_query g copt) t')\<rparr>"
  have run: "QueueTable_unstore g copt db = Inr ?db'"
    using assms d by (simp add: QueueTable_unstore_def)
  have guilds: "queue_guilds ?db' = queue_guilds db" using qg by simp
  have sel: "\<not> queue_row_stored g c ?db'
             \<and> (queue_row_stored g c db \<longrightarrow> dependent_rows c ?db' = 0)"
    if q: "\<forall>r. sq_guild_id r = Some g \<and> sq_queue_channel_id r = c \<longrightarrow> unstore_query g copt r"
    for c
  proof
    show "\<not> queue_row_stored g c ?db'"
      using q by (auto simp: queue_row_stored_def delete_where_def list_ex_iff)
    show "queue_row_stored g c db \<longrightarrow> dependent_rows c ?db' = 0"
    proof
      assume "queue_row_stored g c db"
      with assms obtain r where r: "r \<in> set (tbl_rows t)" "sq_guild_id r = Some g"
        "sq_queue_channel_id r = c"
        by (auto simp: queue_row_stored_def list_ex_iff)
      then have "r \<in> set ?qs" using q by simp
      then have inS: "c \<in> ?S" using r(3) by force
      have "dependent_rows c d = 0"
        using inS unfolding dependent_rows_def bw dc qm sc
        by (auto simp: filter_empty_conv)
      then show "dependent_rows c ?db' = 0" by (simp add: dependent_rows_def)
    qed
  qed
  show ?thesis using run guilds sel by blast
qed



lemma find_filter_not: "find P (filter (\<lambda>r. \<not> P r) xs) = None"
  by (induction xs) auto

text \<open>
  \<open>QueueGuildTable.unstore\<close> calls \<open>QueueTable.unstore\<close> without a channel: every queue of
  the guild goes with its dependent rows, and then the row of the guild.
\<close>

lemma QueueGuildTable_unstore_removes_guild:
  assumes "queue_channels db = Some t" and "queue_guilds db = Some tg"
  shows "\<exists>db'. QueueGuildTable_unstore g db = Inr db'
           \<and> QueueGuildTable_get g db' = Inr None
           \<and> (\<forall>c. \<not> queue_row_stored g c db'
                   \<and> (queue_row_stored g c db \<longrightarrow> dependent_rows c db' = 0))"
proof -
  from QueueTable_unstore_selected[OF assms(1), of g None] obtain d where
    d: "QueueTable_unstore g None db = Inr d" "queue_guilds d = queue_guilds db"
    and sel: "\<And>c. \<not> queue_row_stored g c d
                \<and> (queue_row_stored g c db \<longrightarrow> dependent_rows c d = 0)"
    by (auto simp: unstore_query_def)
  let ?db' = "d\<lparr>queue_guilds := Some (delete_where (\<lambda>r. sg_guild_id r = g) tg)\<rparr>"
  have run: "QueueGuildTable_unstore g db = Inr ?db'"
    using d assms(2) by (simp add: QueueGuildTable_unstore_def)
  have get: "QueueGuildTable_get g ?db' = Inr None"
    by (simp add: QueueGuildTable_get_def delete_where_def find_filter_not)
  have same: "queue_row_stored g c ?db' = queue_row_stored g c d"
    "dependent_rows c ?db' = dependent_rows c d" for c
    by (simp_all add: queue_row_stored_def dependent_rows_def)
  show ?thesis using run get sel same by auto
qed

section \<open>The permission check and the argument check do not throw\<close>

lemma checkPermission_try_no_member:
  "ci_member req = None \<Longrightarrow> checkPermission_try regEx getMany req = Inr False"
  by (simp add: checkPermission_try_def)

text \<open>
  Claim C8. \<open>checkPermission\<close> answers with a boolean on every request and lets no
  exception out: without a member the answer is false, and so it is whenever the body
  throws, be it while resolving the member's permissions or while reading the admin
  table. \<open>verifyArgs\<close> returns the names of the missing required arguments whatever
  becomes of its error reply; when the reply fails, the names and the parsed command
  are as they would be otherwise and nothing is sent. Each name is in the list exactly
  when its kind of argument is required and absent.
\<close>

theorem permission_and_arguments_never_fatal:
  "(ci_member req = None \<longrightarrow> checkPermission regEx getMany req = False)
   \<and> (\<forall>e. checkPermission_try regEx getMany req = Inl e
          \<longrightarrow> checkPermission regEx getMany req = False)
   \<and> (\<forall>m e. ci_member req = Some m \<and> member_permissionsIn m = Inl e
          \<longrightarrow> checkPermission regEx getMany req = False)
   \<and> (\<forall>m perms e. ci_member req = Some m \<and> member_permissionsIn m = Inr perms
            \<and> (\<forall>ps. perms = Some ps \<longrightarrow> ''ADMINISTRATOR'' \<notin> set ps) \<and> getMany = Inl e
          \<longrightarrow> checkPermission regEx getMany req = False)
   \<and> fst (verifyArgs I send conf p) = missingArgs I conf p
   \<and> fst (snd (verifyArgs I send conf p)) = verified_numbers conf p
   \<and> (\<forall>e. verifyArgs I (\<lambda>call content. Inl e) conf p
            = (missingArgs I conf p, verified_numbers conf p, []))
   \<and> ((''string'' \<in> set (missingArgs I conf p))
        = (ro_strings conf = Some REQUIRED \<and> args_strings p = []))
   \<and> ((''boolean'' \<in> set (missingArgs I conf p))
        = (ro_booleans conf = Some REQUIRED \<and> args_booleans p = []))
   \<and> ((''number'' \<in> set (missingArgs I conf p))
        = (\<exists>n. ro_numbers conf = Some n \<and> no_required n = Some REQUIRED \<and> args_numbers p = []))
   \<and> ((''member'' \<in> set (missingArgs I conf p))
        = (ro_members conf = Some REQUIRED \<and> (args_members p = None \<or> args_members p = Some [])))
   \<and> ((''role'' \<in> set (missingArgs I conf p))
        = (ro_roles conf = Some REQUIRED \<and> args_roles p = None))
   \<and> ((''channel'' \<in> set (missingArgs I conf p))
        = (\<exists>cc. ro_channel conf = Some cc \<and> truthy I (co_required cc) \<and> args_channels p = None))"
proof (intro conjI)
  show "ci_member req = None \<longrightarrow> checkPermission regEx getMany req = False"
    by (simp add: checkPermission_def checkPermission_try_def)
  show "\<forall>e. checkPermission_try regEx getMany req = Inl e
          \<longrightarrow> checkPermission regEx getMany req = False"
    by (simp add: checkPermission_def)
  show "\<forall>m e. ci_member req = Some m \<and> member_permissionsIn m = Inl e
          \<longrightarrow> checkPermission regEx getMany req = False"
    by (simp add: checkPermission_def checkPermission_try_def)
  show "\<forall>m perms e. ci_member req = Some m \<and> member_permissionsIn m = Inr perms
            \<and> (\<forall>ps. perms = Some ps \<longrightarrow> ''ADMINISTRATOR'' \<notin> set ps) \<and> getMany = Inl e
          \<longrightarrow> checkPermission regEx getMany req = False"
    by (auto simp: checkPermission_def checkPermission_try_def split: option.splits)
  show "fst (verifyArgs I send conf p) = missingArgs I conf p"
    by (simp add: verifyArgs_def Let_def)
  show "fst (snd (verifyArgs I send conf p)) = verified_numbers conf p"
    by (simp add: verifyArgs_def Let_def)
  show "\<forall>e. verifyArgs I (\<lambda>call content. Inl e) conf p
            = (missingArgs I conf p, verified_numbers conf p, [])"
    by (simp add: verifyArgs_def Let_def reply_def)
  show "(''string'' \<in> set (missingArgs I conf p))
        = (ro_strings conf = Some REQUIRED \<and> args_strings p = [])"
    by (simp add: missingArgs_def missing_channel_name_def includes_array_def split: option.splits)
  show "(''boolean'' \<in> set (missingArgs I conf p))
        = (ro_booleans conf = Some REQUIRED \<and> args_booleans p = [])"
    by (simp add: missingArgs_def missing_channel_name_def includes_array_def split: option.splits)
  show "(''number'' \<in> set (missingArgs I conf p))
        = (\<exists>n. ro_numbers conf = Some n \<and> no_required n = Some REQUIRED \<and> args_numbers p = [])"
    by (simp add: missingArgs_def missing_channel_name_def includes_array_def missing_numbers_def
        split: option.splits)
  show "(''member'' \<in> set (missingArgs I conf p))
        = (ro_members conf = Some REQUIRED \<and> (args_members p = None \<or> args_members p = Some []))"
    by (simp add: missingArgs_def missing_channel_name_def includes_array_def split: option.splits)
  show "(''role'' \<in> set (missingArgs I conf p))
        = (ro_roles conf = Some REQUIRED \<and> args_roles p = None)"
    by (simp add: missingArgs_def missing_channel_name_def includes_array_def split: option.splits)
  show "(''channel'' \<in> set (missingArgs I conf p))
        = (\<exists>cc. ro_channel conf = Some cc \<and> truthy I (co_required cc) \<and> args_channels p = None)"
    by (cases "ro_channel conf") (simp_all add: missingArgs_def missing_channel_name_def includes_array_def)
qed

theorem permission_and_arguments_never_fatal_witness:
  "checkPermission (\<lambda>name. True) (Inr [''300''])
      ((demo_request demo_moderator [])\<lparr>ci_member := None\<rparr>) = False
   \<and> checkPermission (\<lambda>name. True) (Inl (NoSuchTable ''admin_permission''))
      (demo_request demo_guest []) = False
   \<and> verifyArgs demo_Interfaces send_fails demo_conf (demo_parsed demo_guest False [])
     = ([''channel''], demo_parsed demo_guest False [], [])"
proof -
  let ?r1 = "(demo_request demo_moderator [])\<lparr>ci_member := None\<rparr>"
  let ?r2 = "demo_request demo_guest []"
  let ?p = "demo_parsed demo_guest False []"
  note T1 = permission_and_arguments_never_fatal
    [of ?r1 "\<lambda>name. True" "Inr [''300'']" demo_Interfaces send_fails demo_conf ?p]
  note T2 = permission_and_arguments_never_fatal
    [of ?r2 "\<lambda>name. True" "Inl (NoSuchTable ''admin_permission'')"
        demo_Interfaces send_fails demo_conf ?p]
  have "ci_member ?r1 = None" by simp
  with T1 [THEN conjunct1]
  have a: "checkPermission (\<lambda>name. True) (Inr [''300'']) ?r1 = False" by (rule mp)
  have h: "ci_member ?r2 = Some demo_guest \<and> member_permissionsIn demo_guest = Inr (Some [])
      \<and> (\<forall>ps. Some [] = Some ps \<longrightarrow> ''ADMINISTRATOR'' \<notin> set ps)
      \<and> (Inl (NoSuchTable ''admin_permission'') :: error + Snowflake list)
          = Inl (NoSuchTable ''admin_permission'')"
    by (simp add: demo_request_def demo_guest_def)
  from T2 [THEN conjunct2, THEN conjunct2, THEN conjunct2, THEN conjunct1, rule_format, OF h]
  have b: "checkPermission (\<lambda>name. True) (Inl (NoSuchTable ''admin_permission'')) ?r2 = False" .
  have m: "missingArgs demo_Interfaces demo_conf ?p = [''channel'']"
    by (simp add: missingArgs_def missing_numbers_def missing_channel_name_def includes_array_def
        demo_conf_def demo_parsed_def new_Parsed_def truthy_def demo_Interfaces_def)
  have v: "verified_numbers demo_conf ?p = ?p"
    by (simp add: verified_numbers_def demo_conf_def)
  have f: "send_fails = (\<lambda>call content. Inl DiscordAPIError)"
    by (rule ext)+ (simp add: send_fails_def)
  from T1 [THEN conjunct2, THEN conjunct2, THEN conjunct2, THEN conjunct2, THEN conjunct2,
      THEN conjunct2, THEN conjunct1, rule_format, of DiscordAPIError]
  have "verifyArgs demo_Interfaces (\<lambda>call content. Inl DiscordAPIError) demo_conf ?p
      = (missingArgs demo_Interfaces demo_conf ?p, verified_numbers demo_conf ?p, [])" .
  then have c: "verifyArgs demo_Interfaces send_fails demo_conf ?p = ([''channel''], ?p, [])"
    unfolding f m v .
  from a b c show ?thesis by (intro conjI)
qed

section \<open>verifyNumber\<close>

lemma verifyNumber_loop_map:
  "i + todo = length xs \<Longrightarrow>
   verifyNumber_loop mn mx d i todo xs = take i xs @ map (verify_one mn mx d) (drop i xs)"
proof (induction todo arbitrary: i xs)
  case 0
  then show ?case by simp
next
  case (Suc todo)
  let ?f = "verify_one mn mx d"
  let ?xs' = "xs[i := ?f (xs ! i)]"
  have i: "i < length xs" using Suc.prems by simp
  have "verifyNumber_loop mn mx d (Suc i) todo ?xs'
        = take (Suc i) ?xs' @ map ?f (drop (Suc i) ?xs')"
    using Suc.prems by (intro Suc.IH) simp
  also have "take (Suc i) ?xs' = take i xs @ [?f (xs ! i)]"
    using i by (simp add: take_Suc_conv_app_nth)
  also have "drop (Suc i) ?xs' = drop (Suc i) xs" by simp
  finally have "verifyNumber_loop mn mx d (Suc i) todo ?xs'
        = take i xs @ ?f (xs ! i) # map ?f (drop (Suc i) xs)" by simp
  moreover have "drop i xs = xs ! i # drop (Suc i) xs" using i by (simp add: Cons_nth_drop_Suc)
  ultimately show ?case by simp
qed

lemma args_numbers_verifyNumber:
  "args_numbers (verifyNumber mn mx d p) = map (verify_one mn mx d) (args_numbers p)"
  by (simp add: verifyNumber_def verifyNumber_loop_map)

text \<open>
  Claim C9. For bounds \<open>mn \<le> mx\<close> and a default \<open>d\<close>, \<open>verifyNumber\<close> keeps the number of
  arguments; it replaces every argument that is null, undefined or 0 by \<open>d\<close> (a 0 also
  when 0 lies within the bounds) and every other argument \<open>n\<close> by
  \<open>Math.max(Math.min(n, mx), mn)\<close>, which lies within the bounds.
\<close>

theorem verifyNumber_clamps_or_defaults:
  assumes "mn \<le> mx"
  shows "length (args_numbers (verifyNumber mn mx d p)) = length (args_numbers p)
    \<and> (\<forall>i < length (args_numbers p).
          (args_numbers p ! i = None \<or> args_numbers p ! i = Some 0
             \<longrightarrow> args_numbers (verifyNumber mn mx d p) ! i = d)
        \<and> (\<forall>n. args_numbers p ! i = Some n \<and> n \<noteq> 0
             \<longrightarrow> args_numbers (verifyNumber mn mx d p) ! i = Some (max (min n mx) mn)
                 \<and> mn \<le> max (min n mx) mn \<and> max (min n mx) mn \<le> mx))"
  using assms by (auto simp: args_numbers_verifyNumber verify_one_def)

theorem verifyNumber_clamps_or_defaults_witness:
  "(1::int) \<le> 5
   \<and> args_numbers (verifyNumber 1 5 (Some 2)
        ((demo_parsed demo_guest False [])\<lparr>args_numbers := [Some 7, Some 0, None, Some (- 3)]\<rparr>))
      = [Some 5, Some 2, Some 2, Some 1]"
proof -
  let ?p = "(demo_parsed demo_guest False [])\<lparr>args_numbers := [Some 7, Some 0, None, Some (- 3)]\<rparr>"
  let ?r = "args_numbers (verifyNumber 1 5 (Some 2) ?p)"
  have h: "(1::int) \<le> 5" by simp
  note T = verifyNumber_clamps_or_defaults [OF h, of "Some 2" ?p]
  have len: "length ?r = 4" using T by simp
  have e0: "?r ! 0 = Some 5" using T [THEN conjunct2, THEN spec, of 0] by simp
  have e1: "?r ! 1 = Some 2" using T [THEN conjunct2, THEN spec, of 1] by simp
  have e2: "?r ! 2 = Some 2" using T [THEN conjunct2, THEN spec, of 2] by simp
  have e3: "?r ! 3 = Some 1" using T [THEN conjunct2, THEN spec, of 3] by simp
  have "?r ! i = [Some 5, Some 2, Some 2, Some 1] ! i" if "i < 4" for i
  proof -
    from that consider "i = 0" | "i = 1" | "i = 2" | "i = 3" by linarith
    then show ?thesis using e0 e1 e2 e3 by cases simp_all
  qed
  then have "?r = [Some 5, Some 2, Some 2, Some 1]"
    using len by (intro nth_equalityI) simp_all
  then show ?thesis using h by simp
qed

section \<open>The automatic choice of the channel\<close>

lemma parseArgs_values_strings:
  "args_strings (parseArgs_values I conf p) = findArgs (ci_options (request p)) is_STRING []"
  by (simp add: parseArgs_values_def Let_def)

lemma parseArgs_values_request:
  "request (parseArgs_values I conf p) = request p"
  by (simp add: parseArgs_values_def Let_def)

lemma getStoredQueues_args:
  "getStoredQueues db q = Inr (qs, q') \<Longrightarrow>
   args_strings q' = args_strings q \<and> args_channels q' = args_channels q \<and> request q' = request q"
  by (auto simp: getStoredQueues_def split: option.splits sum.splits)

lemma getChannels_args:
  "getChannels I q = Inr (cs, q') \<Longrightarrow>
   args_strings q' = args_strings q \<and> args_channels q' = args_channels q \<and> request q' = request q"
  by (auto simp: getChannels_def Let_def split: option.splits sum.splits)

lemma getQueuePairs_args:
  assumes "getQueuePairs I db q = Inr (pairs, q')"
  shows "args_strings q' = args_strings q \<and> args_channels q' = args_channels q \<and> request q' = request q"
proof -
  from assms obtain qs q1 cs q2 where
    a: "getStoredQueues db q = Inr (qs, q1)" and b: "getChannels I q1 = Inr (cs, q2)"
    and c: "q' = q2 \<or> (\<exists>ps. q' = q2\<lparr>cachedQueueChannels := Some ps\<rparr>)"
    by (auto simp: getQueuePairs_def Let_def split: option.splits sum.splits prod.splits)
  from getStoredQueues_args[OF a] getChannels_args[OF b] c show ?thesis by auto
qed

lemma candidate_channels_args:
  assumes "candidate_channels I db cc q = Inr (channels, q')"
  shows "args_strings q' = args_strings q \<and> args_channels q' = args_channels q \<and> request q' = request q"
proof -
  from assms obtain pairs where "getQueuePairs I db q = Inr (pairs, q')"
    by (auto simp: candidate_channels_def getQueueChannels_def
        split: option.splits sum.splits prod.splits)
  then show ?thesis by (rule getQueuePairs_args)
qed

lemma verifyArgs_selection:
  "verifyArgs I send conf q = (missing, q', sent) \<Longrightarrow>
   args_channels q' = args_channels q \<and> args_strings q' = args_strings q"
  by (auto simp: verifyArgs_def Let_def verified_numbers_def verifyNumber_def split: option.splits)

text \<open>
  Claim C10, as amended. Let the command be configured with a channel entry
  (\<open>conf.channel\<close>), let the interaction carry no channel argument of a queuable type, and
  let the candidates (the channels of the guild's stored queues, filtered by
  \<open>conf.channel.type\<close> when it is given) be computed. Then \<open>parseArgs\<close> returns, and (a)
  when there is exactly one candidate it is selected and the strings stay as they are;
  (b) otherwise, when the first string is \<open>ALL\<close>, all candidates are selected; (c)
  otherwise, when the first string is the id of a candidate, the first such candidate is
  selected; in (b) and (c) the first string is removed from the strings.
\<close>

theorem parseArgs_channel_resolution:
  assumes "ro_channel conf = Some cc"
    and "\<not> queuable_channel_argument I p"
    and "candidate_channels I db cc (parseArgs_values I conf p) = Inr (channels, p')"
  shows "\<exists>missing p'' sent. parseArgs I send db conf p = Inr (missing, p'', sent)
     \<and> (length channels = 1 \<longrightarrow>
          args_channels p'' = Some channels
          \<and> args_strings p'' = findArgs (ci_options (request p)) is_STRING [])
     \<and> (length channels \<noteq> 1 \<longrightarrow>
          (\<forall>rest. findArgs (ci_options (request p)) is_STRING [] = ''ALL'' # rest
             \<longrightarrow> args_channels p'' = Some channels \<and> args_strings p'' = rest))
     \<and> (length channels \<noteq> 1 \<longrightarrow>
          (\<forall>s rest c. findArgs (ci_options (request p)) is_STRING [] = s # rest \<and> s \<noteq> ''ALL''
               \<and> find (\<lambda>ch. case ch of None \<Rightarrow> False | Some x \<Rightarrow> channel_id x = s) channels
                   = Some (Some c)
             \<longrightarrow> args_channels p'' = Some [Some c] \<and> args_strings p'' = rest))"
proof -
  let ?q = "parseArgs_values I conf p"
  let ?strs = "findArgs (ci_options (request p)) is_STRING []"
  from candidate_channels_args[OF assms(3)]
  have keep: "args_strings p' = ?strs" "request p' = request p"
    by (simp_all add: parseArgs_values_strings parseArgs_values_request)
  let ?r = "choose_channels channels p'"
  have noarg: "\<not> (case (case findArgs (ci_options (request ?q)) is_CHANNEL [] of
                          [] \<Rightarrow> None | c # rest \<Rightarrow> c) of
                   None \<Rightarrow> False
                 | Some c \<Rightarrow> channel_type c \<in> set (QUEUABLE_CHANNELS I))"
    using assms(2)
    by (auto simp: queuable_channel_argument_def parseArgs_values_request split: list.splits option.splits)
  have ch: "parseArgs_channel I db conf ?q = Inr ?r"
    using assms(1,3) noarg by (simp add: parseArgs_channel_def Let_def)
  obtain missing p'' sent where v: "verifyArgs I send conf ?r = (missing, p'', sent)"
    by (cases "verifyArgs I send conf ?r") auto
  from verifyArgs_selection[OF v]
  have sel: "args_channels p'' = args_channels ?r" "args_strings p'' = args_strings ?r" by simp_all
  have run: "parseArgs I send db conf p = Inr (missing, p'', sent)"
    using ch v by (simp add: parseArgs_def)
  have a: "length channels = 1 \<longrightarrow>
          args_channels p'' = Some channels \<and> args_strings p'' = ?strs"
    using sel keep by (simp add: choose_channels_def)
  have b: "length channels \<noteq> 1 \<longrightarrow>
          (\<forall>rest. ?strs = ''ALL'' # rest
             \<longrightarrow> args_channels p'' = Some channels \<and> args_strings p'' = rest)"
    using sel keep by (simp add: choose_channels_def Let_def)
  have c: "length channels \<noteq> 1 \<longrightarrow>
          (\<forall>s rest c. ?strs = s # rest \<and> s \<noteq> ''ALL''
               \<and> find (\<lambda>ch. case ch of None \<Rightarrow> False | Some x \<Rightarrow> channel_id x = s) channels
                   = Some (Some c)
             \<longrightarrow> args_channels p'' = Some [Some c] \<and> args_strings p'' = rest)"
    using sel keep by (simp add: choose_channels_def Let_def find_by_id_def)
  show ?thesis using run a b c by blast
qed

lemma demo_candidates:
  "candidate_channels demo_Interfaces demo_db \<lparr>co_required = Some REQUIRED, co_type = None\<rparr>
     (parseArgs_values demo_Interfaces demo_conf (demo_parsed demo_guest False [STRING ''ALL'']))
   = Inr ([Some demo_voice, Some demo_text],
          (parseArgs_values demo_Interfaces demo_conf (demo_parsed demo_guest False [STRING ''ALL'']))
            \<lparr>cachedChannels := Some [demo_voice, demo_text],
             cachedQueues := Some [new_queue_row demo_config ''100'' ''200'' None,
                                   new_queue_row demo_config ''100'' ''201'' (Some 5)],
             cachedQueueChannels :=
               Some [(new_queue_row demo_config ''100'' ''200'' None, Some demo_voice),
                     (new_queue_row demo_config ''100'' ''201'' (Some 5), Some demo_text)]\<rparr>)"
  by (simp add: candidate_channels_def getQueueChannels_def getQueuePairs_def getStoredQueues_def
      getChannels_def QueueTable_getFromGuild_def parseArgs_values_def Let_def demo_parsed_def
      new_Parsed_def demo_request_def demo_conf_def demo_db_def new_queue_row_def queuable_def
      demo_Interfaces_def demo_voice_def demo_text_def List.map_filter_def truthy_def)

theorem parseArgs_channel_resolution_witness:
  "ro_channel demo_conf = Some \<lparr>co_required = Some REQUIRED, co_type = None\<rparr>
   \<and> \<not> queuable_channel_argument demo_Interfaces (demo_parsed demo_guest False [STRING ''ALL''])
   \<and> selection (parseArgs demo_Interfaces send_ok demo_db demo_conf
                  (demo_parsed demo_guest False [STRING ''ALL'']))
     = Inr (Some [Some demo_voice, Some demo_text], [])"
proof -
  let ?p = "demo_parsed demo_guest False [STRING ''ALL'']"
  have a: "ro_channel demo_conf = Some \<lparr>co_required = Some REQUIRED, co_type = None\<rparr>"
    by (simp add: demo_conf_def)
  have b: "\<not> queuable_channel_argument demo_Interfaces ?p"
    by (simp add: queuable_channel_argument_def demo_parsed_def new_Parsed_def demo_request_def
        is_CHANNEL_def)
  have strs: "findArgs (ci_options (request ?p)) is_STRING [] = [''ALL'']"
    by (simp add: demo_parsed_def new_Parsed_def demo_request_def is_STRING_def)
  from parseArgs_channel_resolution [OF a b demo_candidates, of send_ok]
  obtain missing p'' sent where
    run: "parseArgs demo_Interfaces send_ok demo_db demo_conf ?p = Inr (missing, p'', sent)"
    and all: "length [Some demo_voice, Some demo_text] \<noteq> 1 \<longrightarrow>
          (\<forall>rest. findArgs (ci_options (request ?p)) is_STRING [] = ''ALL'' # rest
             \<longrightarrow> args_channels p'' = Some [Some demo_voice, Some demo_text]
                 \<and> args_strings p'' = rest)"
    by blast
  from all strs have "args_channels p'' = Some [Some demo_voice, Some demo_text]
      \<and> args_strings p'' = []" by simp
  then have "selection (parseArgs demo_Interfaces send_ok demo_db demo_conf ?p)
      = Inr (Some [Some demo_voice, Some demo_text], [])"
    using run by (simp add: selection_def)
  then show ?thesis using a b by blast
qed

text \<open>
  Without a channel entry in the configuration nothing is resolved: on the same
  interaction and the same two stored queues, the first string \<open>ALL\<close> selects no channel
  and stays among the strings.
\<close>

theorem parseArgs_channel_resolution_counterexample:
  "\<not> queuable_channel_argument demo_Interfaces (demo_parsed demo_guest False [STRING ''ALL''])
   \<and> QueueTable_getFromGuild ''100'' demo_db
     = Inr [new_queue_row demo_config ''100'' ''200'' None,
            new_queue_row demo_config ''100'' ''201'' (Some 5)]
   \<and> selection (parseArgs demo_Interfaces send_ok demo_db demo_conf_no_channel
                  (demo_parsed demo_guest False [STRING ''ALL'']))
     = Inr (None, [''ALL''])"
proof -
  let ?p = "demo_parsed demo_guest False [STRING ''ALL'']"
  have b: "\<not> queuable_channel_argument demo_Interfaces ?p"
    by (simp add: queuable_channel_argument_def demo_parsed_def new_Parsed_def demo_request_def
        is_CHANNEL_def)
  have q: "QueueTable_getFromGuild ''100'' demo_db
     = Inr [new_queue_row demo_config ''100'' ''200'' None,
            new_queue_row demo_config ''100'' ''201'' (Some 5)]"
    by (simp add: QueueTable_getFromGuild_def demo_db_def new_queue_row_def)
  have s: "selection (parseArgs demo_Interfaces send_ok demo_db demo_conf_no_channel ?p)
     = Inr (None, [''ALL''])"
    by (simp add: selection_def parseArgs_def parseArgs_channel_def parseArgs_values_def
        verifyArgs_def verified_numbers_def demo_conf_no_channel_def demo_conf_def Let_def
        demo_parsed_def new_Parsed_def demo_request_def is_STRING_def is_INTEGER_def truthy_def)
  show ?thesis using b q s by blast
qed

text \<open>
  The run that the theorem above leaves aside: when a stored queue has no channel in the
  guild and the command filters by type, the filter reads the type of an undefined
  entry and \<open>parseArgs\<close> ends with a TypeError, although exactly one queue channel of
  the guild has the type asked for.
\<close>

lemma parseArgs_stale_queue_throws:
  "parseArgs demo_Interfaces send_ok demo_db_stale demo_conf_voice (demo_parsed demo_guest False [])
   = Inl TypeError"
  by (simp add: parseArgs_def parseArgs_channel_def candidate_channels_def getQueueChannels_def
      getQueuePairs_def getStoredQueues_def getChannels_def QueueTable_getFromGuild_def
      parseArgs_values_def Let_def demo_parsed_def new_Parsed_def demo_request_def
      demo_conf_voice_def demo_conf_def demo_db_stale_def demo_db_def new_queue_row_def
      queuable_def demo_Interfaces_def demo_voice_def demo_text_def List.map_filter_def
      truthy_def is_CHANNEL_def is_STRING_def is_INTEGER_def)

section \<open>The default pull count of a new queue\<close>

lemma store_members_queue_channels:
  "queue_channels (store_members channel ms d) = queue_channels d"
  by (induction ms arbitrary: d) (auto simp: QueueMemberTable_store_def)

lemma fst_QueueTable_store:
  assumes "storedGuild parsed = Some g" and "queue_channels db = Some t"
    and "\<not> list_ex (\<lambda>r. sq_queue_channel_id r = channel_id channel) (tbl_rows t)"
  shows "queue_channels (fst (QueueTable_store I cfg send parsed channel maxMembers db))
         = Some (t\<lparr>tbl_rows := tbl_rows t
                   @ [new_queue_row cfg (sg_guild_id g) (channel_id channel) maxMembers]\<rparr>)"
proof -
  let ?row = "new_queue_row cfg (sg_guild_id g) (channel_id channel) maxMembers"
  let ?t' = "t\<lparr>tbl_rows := tbl_rows t @ [?row]\<rparr>"
  let ?db1 = "db\<lparr>queue_channels := Some ?t'\<rparr>"
  let ?db2 = "if channel_type channel \<in> set (QUEUABLE_VOICE_CHANNELS I)
              then store_members channel
                     (filter (\<lambda>m. \<not> member_bot m) (channel_members channel)) ?db1
              else ?db1"
  have key: "sq_queue_channel_id ?row = channel_id channel" by (simp add: new_queue_row_def)
  have ins: "insert_row ''queue_channels'' sq_queue_channel_id ?row (queue_channels db) = Inr ?t'"
    using assms(2,3) key by (simp add: insert_row_def)
  have qc: "queue_channels ?db2 = Some ?t'" by (simp add: store_members_queue_channels)
  obtain queues where q: "QueueTable_getFromGuild (ci_guildId (request parsed)) ?db2 = Inr queues"
    using qc by (simp add: QueueTable_getFromGuild_def)
  have "fst (QueueTable_store I cfg send parsed channel maxMembers db) = ?db2"
    unfolding QueueTable_store_def using assms(1) ins q
    by (cases "reply send parsed (too_many_queues_warning channel)") (simp_all add: Let_def)
  then show ?thesis using qc by simp
qed

text \<open>
  Claim C6, as amended. A queue that \<open>QueueTable.store\<close> creates (the parsed command has
  its stored guild, the table exists and has no row of the channel) is stored with
  \<open>pull_num = 1\<close>. A pull that names no count and has no size-limited destination then
  pulls exactly one member, the head of the queue, whenever the queue has a member; on
  an empty queue it reports \<open>Empty\<close> and pulls nobody.
\<close>

theorem store_default_pull_count:
  assumes "storedGuild parsed = Some g" and "queue_channels db = Some t"
    and "\<not> list_ex (\<lambda>r. sq_queue_channel_id r = channel_id channel) (tbl_rows t)"
  shows "\<exists>q. QueueTable_get (channel_id channel)
               (fst (QueueTable_store I cfg send parsed channel maxMembers db)) = Inr (Some q)
           \<and> sq_pull_num q = Some 1
           \<and> (\<forall>ms :: 'm list. ms \<noteq> [] \<longrightarrow> pull q None None ms = Inr ([hd ms], tl ms))
           \<and> pull q None None ([] :: 'm list) = Inl Empty"
proof -
  let ?row = "new_queue_row cfg (sg_guild_id g) (channel_id channel) maxMembers"
  have key: "sq_queue_channel_id ?row = channel_id channel" by (simp add: new_queue_row_def)
  have "find (\<lambda>r. sq_queue_channel_id r = channel_id channel) (tbl_rows t @ [?row]) = Some ?row"
    using assms(3) key by (rule find_append_new)
  then have get: "QueueTable_get (channel_id channel)
               (fst (QueueTable_store I cfg send parsed channel maxMembers db)) = Inr (Some ?row)"
    using fst_QueueTable_store[OF assms] by (simp add: QueueTable_get_def)
  have num: "sq_pull_num ?row = Some 1" by (simp add: new_queue_row_def)
  have one: "pull ?row None None ms = Inr ([hd ms], tl ms)" if "ms \<noteq> []" for ms :: "'m list"
  proof -
    from that obtain m rest where "ms = m # rest" by (cases ms) auto
    then show ?thesis
      by (simp add: pull_def default_pull_count_def new_queue_row_def Let_def)
  qed
  have none: "pull ?row None None ([] :: 'm list) = Inl Empty"
    by (simp add: pull_def Let_def)
  show ?thesis using get num one none by blast
qed

lemma demo_store_db:
  "fst (QueueTable_store demo_Interfaces demo_config send_ok (demo_parsed demo_moderator True [])
          demo_new_text None demo_db)
   = demo_db\<lparr>queue_channels :=
       Some \<lparr>tbl_columns = queue_channels_columns,
             tbl_rows = [new_queue_row demo_config ''100'' ''200'' None,
                         new_queue_row demo_config ''100'' ''201'' (Some 5),
                         new_queue_row demo_config ''100'' ''202'' None]\<rparr>\<rparr>"
  by (simp add: QueueTable_store_def demo_parsed_def new_Parsed_def demo_request_def
      insert_row_def demo_db_def new_guild_row_def new_queue_row_def demo_new_text_def
      demo_Interfaces_def QueueTable_getFromGuild_def Let_def)

theorem store_default_pull_count_witness:
  "QueueTable_get ''202''
     (fst (QueueTable_store demo_Interfaces demo_config send_ok (demo_parsed demo_moderator True [])
             demo_new_text None demo_db))
     = Inr (Some (new_queue_row demo_config ''100'' ''202'' None))
   \<and> pull (new_queue_row demo_config ''100'' ''202'' None) None None [''a'', ''b'', ''c'']
     = Inr ([''a''], [''b'', ''c''])"
proof -
  let ?p = "demo_parsed demo_moderator True []"
  let ?t = "\<lparr>tbl_columns = queue_channels_columns,
             tbl_rows = [new_queue_row demo_config ''100'' ''200'' None,
                         new_queue_row demo_config ''100'' ''201'' (Some 5)]\<rparr>"
  have a: "storedGuild ?p = Some (new_guild_row ''100'')"
    by (simp add: demo_parsed_def new_Parsed_def)
  have b: "queue_channels demo_db = Some ?t" by (simp add: demo_db_def)
  have c: "\<not> list_ex (\<lambda>r. sq_queue_channel_id r = channel_id demo_new_text) (tbl_rows ?t)"
    by (simp add: new_queue_row_def demo_new_text_def)
  from store_default_pull_count [OF a b c, of demo_Interfaces demo_config send_ok None,
      where ?'m = string]
  obtain q where q: "QueueTable_get (channel_id demo_new_text)
        (fst (QueueTable_store demo_Interfaces demo_config send_ok ?p demo_new_text None demo_db))
        = Inr (Some q)"
    and one: "\<forall>ms :: string list. ms \<noteq> [] \<longrightarrow> pull q None None ms = Inr ([hd ms], tl ms)"
    by blast
  have get: "QueueTable_get ''202''
        (fst (QueueTable_store demo_Interfaces demo_config send_ok ?p demo_new_text None demo_db))
        = Inr (Some (new_queue_row demo_config ''100'' ''202'' None))"
    unfolding demo_store_db by (simp add: QueueTable_get_def new_queue_row_def)
  have "channel_id demo_new_text = ''202''" by (simp add: demo_new_text_def)
  with q get have "q = new_queue_row demo_config ''100'' ''202'' None" by simp
  with one have "pull (new_queue_row demo_config ''100'' ''202'' None) None None [''a'', ''b'', ''c'']
     = Inr ([hd [''a'', ''b'', ''c'']], tl [''a'', ''b'', ''c''])"
    by blast
  with get show ?thesis by simp
qed

text \<open>
  A text channel turned into a queue starts without members, and the pull on it pulls
  nobody.
\<close>

theorem store_default_pull_count_counterexample:
  "QueueTable_get ''202''
     (fst (QueueTable_store demo_Interfaces demo_config send_ok (demo_parsed demo_moderator True [])
             demo_new_text None demo_db))
     = Inr (Some (new_queue_row demo_config ''100'' ''202'' None))
   \<and> listOrdered ''202''
       (fst (QueueTable_store demo_Interfaces demo_config send_ok (demo_parsed demo_moderator True [])
               demo_new_text None demo_db)) = []
   \<and> pull (new_queue_row demo_config ''100'' ''202'' None) None None
       (listOrdered ''202''
         (fst (QueueTable_store demo_Interfaces demo_config send_ok (demo_parsed demo_moderator True [])
                 demo_new_text None demo_db)))
     = Inl Empty"
proof -
  have l: "listOrdered ''202''
       (fst (QueueTable_store demo_Interfaces demo_config send_ok (demo_parsed demo_moderator True [])
               demo_new_text None demo_db)) = []"
    unfolding demo_store_db by (simp add: listOrdered_def demo_db_def)
  have g: "QueueTable_get ''202''
        (fst (QueueTable_store demo_Interfaces demo_config send_ok (demo_parsed demo_moderator True [])
                demo_new_text None demo_db))
        = Inr (Some (new_queue_row demo_config ''100'' ''202'' None))"
    unfolding demo_store_db by (simp add: QueueTable_get_def new_queue_row_def)
  have p: "pull (new_queue_row demo_config ''100'' ''202'' None) None None ([] :: QueueMember list)
      = Inl Empty"
    by (simp add: pull_def Let_def)
  show ?thesis using l g p by simp
qed

section \<open>The requester's roles do not reach the operations\<close>



lemma wr_request [simp]:
  "ci_options (request (without_roles p)) = ci_options (request p)"
  "ci_guildId (request (without_roles p)) = ci_guildId (request p)"
  "ci_replied (request (without_roles p)) = ci_replied (request p)"
  "ci_deferred (request (without_roles p)) = ci_deferred (request p)"
  "ci_guild_channels (request (without_roles p)) = ci_guild_channels (request p)"
  by (simp_all add: without_roles_def request_without_roles_def)

lemma wr_fields [simp]:
  "args_channels (without_roles p) = args_channels p"
  "args_members (without_roles p) = args_members p"
  "args_roles (without_roles p) = args_roles p"
  "args_strings (without_roles p) = args_strings p"
  "args_numbers (without_roles p) = args_numbers p"
  "args_booleans (without_roles p) = args_booleans p"
  "storedGuild (without_roles p) = storedGuild p"
  "cachedChannels (without_roles p) = cachedChannels p"
  "cachedQueues (without_roles p) = cachedQueues p"
  "cachedQueueChannels (without_roles p) = cachedQueueChannels p"
  by (simp_all add: without_roles_def)

lemma wr_updates [simp]:
  "without_roles (p\<lparr>args_channels := a\<rparr>) = (without_roles p)\<lparr>args_channels := a\<rparr>"
  "without_roles (p\<lparr>args_members := b\<rparr>) = (without_roles p)\<lparr>args_members := b\<rparr>"
  "without_roles (p\<lparr>args_roles := c\<rparr>) = (without_roles p)\<lparr>args_roles := c\<rparr>"
  "without_roles (p\<lparr>args_strings := d\<rparr>) = (without_roles p)\<lparr>args_strings := d\<rparr>"
  "without_roles (p\<lparr>args_numbers := e\<rparr>) = (without_roles p)\<lparr>args_numbers := e\<rparr>"
  "without_roles (p\<lparr>args_booleans := f\<rparr>) = (without_roles p)\<lparr>args_booleans := f\<rparr>"
  "without_roles (p\<lparr>command := g\<rparr>) = (without_roles p)\<lparr>command := g\<rparr>"
  "without_roles (p\<lparr>cachedChannels := h\<rparr>) = (without_roles p)\<lparr>cachedChannels := h\<rparr>"
  "without_roles (p\<lparr>cachedQueues := i\<rparr>) = (without_roles p)\<lparr>cachedQueues := i\<rparr>"
  "without_roles (p\<lparr>cachedQueueChannels := j\<rparr>) = (without_roles p)\<lparr>cachedQueueChannels := j\<rparr>"
  by (simp_all add: without_roles_def)

















end
